theory Spec2Isabelle
  imports Complex_Main
begin

section \<open>Values: errors, arrays, Python values\<close>

text \<open>
  The exceptions the modelled code can raise. \<open>AxisError\<close> is NumPy's error for an axis
  out of range.
\<close>

datatype pyerror =
  TypeError | AttributeError | ValueError | AxisError | ZeroDivisionError | IndexError

text \<open>
  A NumPy array is its shape and its elements in row-major order. Elements are real
  numbers: rounding of floating-point arithmetic and the element type of the array are
  not part of the model.
\<close>

record ndarray =
  shape :: "nat list"
  elems :: "real list"

text \<open>
  A Python value as the library sees it: \<open>None\<close>, a Python number, a NumPy scalar, a
  NumPy array, or a reference to a \<open>Variable\<close> object of the heap.
\<close>

datatype pyval = PNone | PFloat real | PNpScalar real | PArr ndarray | PVar nat

subsection \<open>Array kernels\<close>

fun unravel :: "nat list \<Rightarrow> nat \<Rightarrow> nat list" where
  "unravel [] k = []"
| "unravel (d # ds) k = (k div prod_list ds) mod d # unravel ds (k mod prod_list ds)"

fun ravel :: "nat list \<Rightarrow> nat list \<Rightarrow> nat" where
  "ravel (d # ds) (i # js) = i * prod_list ds + ravel ds js"
| "ravel _ _ = 0"

definition item :: "ndarray \<Rightarrow> nat list \<Rightarrow> real" where
  "item a idx = elems a ! ravel (shape a) idx"

definition build :: "nat list \<Rightarrow> (nat list \<Rightarrow> real) \<Rightarrow> ndarray" where
  "build s g = \<lparr>shape = s, elems = map (\<lambda>k. g (unravel s k)) [0..<prod_list s]\<rparr>"

definition scalar0 :: "real \<Rightarrow> ndarray" where
  "scalar0 r = \<lparr>shape = [], elems = [r]\<rparr>"

definition np_ones :: "nat list \<Rightarrow> ndarray" where
  "np_ones s = \<lparr>shape = s, elems = replicate (prod_list s) 1\<rparr>"

fun bshape_rev :: "nat list \<Rightarrow> nat list \<Rightarrow> pyerror + nat list" where
  "bshape_rev [] ys = Inr ys"
| "bshape_rev (x # xs) [] = Inr (x # xs)"
| "bshape_rev (x # xs) (y # ys) =
     (case bshape_rev xs ys of
        Inl e \<Rightarrow> Inl e
      | Inr r \<Rightarrow> if x = y \<or> y = 1 then Inr (x # r)
                else if x = 1 then Inr (y # r) else Inl ValueError)"

definition broadcast_shapes :: "nat list \<Rightarrow> nat list \<Rightarrow> pyerror + nat list" where
  "broadcast_shapes s t =
     (case bshape_rev (rev s) (rev t) of Inl e \<Rightarrow> Inl e | Inr r \<Rightarrow> Inr (rev r))"

definition can_broadcast :: "nat list \<Rightarrow> nat list \<Rightarrow> bool" where
  "can_broadcast s t \<longleftrightarrow>
     length s \<le> length t \<and>
     list_all2 (\<lambda>d e. d = e \<or> d = 1) s (drop (length t - length s) t)"

definition np_broadcast_to :: "ndarray \<Rightarrow> nat list \<Rightarrow> pyerror + ndarray" where
  "np_broadcast_to a t =
     (if can_broadcast (shape a) t
      then Inr (build t (\<lambda>j. item a (map2 (\<lambda>d i. if d = 1 then 0 else i) (shape a)
                                      (drop (length t - length (shape a)) j))))
      else Inl ValueError)"

definition np_binop :: "(real \<Rightarrow> real \<Rightarrow> real) \<Rightarrow> ndarray \<Rightarrow> ndarray \<Rightarrow> pyerror + ndarray" where
  "np_binop f a b =
     (case broadcast_shapes (shape a) (shape b) of
        Inl e \<Rightarrow> Inl e
      | Inr s \<Rightarrow>
         (case np_broadcast_to a s of
            Inl e \<Rightarrow> Inl e
          | Inr a' \<Rightarrow>
             (case np_broadcast_to b s of
                Inl e \<Rightarrow> Inl e
              | Inr b' \<Rightarrow> Inr \<lparr>shape = s, elems = map2 f (elems a') (elems b')\<rparr>)))"

definition np_neg :: "ndarray \<Rightarrow> ndarray" where
  "np_neg a = \<lparr>shape = shape a, elems = map uminus (elems a)\<rparr>"

definition np_pow :: "ndarray \<Rightarrow> int \<Rightarrow> ndarray" where
  "np_pow a n = \<lparr>shape = shape a, elems = map (\<lambda>x. x powi n) (elems a)\<rparr>"

definition np_reshape :: "ndarray \<Rightarrow> nat list \<Rightarrow> pyerror + ndarray" where
  "np_reshape a s =
     (if prod_list s = prod_list (shape a) then Inr \<lparr>shape = s, elems = elems a\<rparr>
      else Inl ValueError)"

definition norm_axis :: "nat \<Rightarrow> int \<Rightarrow> pyerror + nat" where
  "norm_axis n a =
     (if - int n \<le> a \<and> a < int n then Inr (nat (if a < 0 then a + int n else a))
      else Inl AxisError)"

fun norm_axes :: "nat \<Rightarrow> int list \<Rightarrow> pyerror + nat list" where
  "norm_axes n [] = Inr []"
| "norm_axes n (a # as) =
     (case norm_axis n a of
        Inl e \<Rightarrow> Inl e
      | Inr k \<Rightarrow> (case norm_axes n as of Inl e \<Rightarrow> Inl e | Inr ks \<Rightarrow> Inr (k # ks)))"

fun index_of :: "nat list \<Rightarrow> nat \<Rightarrow> nat" where
  "index_of [] d = 0"
| "index_of (p # ps) d = (if p = d then 0 else Suc (index_of ps d))"

definition permute :: "ndarray \<Rightarrow> nat list \<Rightarrow> ndarray" where
  "permute a perm =
     build (map (\<lambda>p. shape a ! p) perm)
           (\<lambda>j. item a (map (\<lambda>d. j ! index_of perm d) [0..<length (shape a)]))"

text \<open>
  \<open>ndarray.transpose(axes)\<close>: without axes the order of the axes is reversed; with axes,
  negative entries count from the end, the number of entries must be the number of
  dimensions, and no axis may occur twice.
\<close>

definition np_transpose :: "ndarray \<Rightarrow> int list option \<Rightarrow> pyerror + ndarray" where
  "np_transpose a axes =
     (case axes of
        None \<Rightarrow> Inr (permute a (rev [0..<length (shape a)]))
      | Some ax \<Rightarrow>
         (if length ax \<noteq> length (shape a) then Inl ValueError
          else case norm_axes (length (shape a)) ax of
                 Inl e \<Rightarrow> Inl e
               | Inr perm \<Rightarrow> if distinct perm then Inr (permute a perm) else Inl ValueError))"

text \<open>
  \<open>numpy.argsort\<close> of a tuple of integers. The entries that reach it are pairwise
  different (a repeated axis has already failed in the forward pass), so the result does
  not depend on the sorting algorithm.
\<close>

definition argsort :: "int list \<Rightarrow> int list" where
  "argsort xs = map (\<lambda>p. int (snd p)) (sort_key fst (zip xs [0..<length xs]))"

datatype axis_arg = AxNone | AxInt int | AxTuple "int list"

definition reduce_axes :: "ndarray \<Rightarrow> nat list \<Rightarrow> bool \<Rightarrow> ndarray" where
  "reduce_axes a axs keep =
     (let s = shape a; n = length s;
          ks = map (\<lambda>d. if d \<in> set axs then 1 else s ! d) [0..<n];
          r = build ks (\<lambda>j. sum_list (map (\<lambda>k. elems a ! k)
                 (filter (\<lambda>k. map (\<lambda>d. if d \<in> set axs then 0 else unravel s k ! d) [0..<n] = j)
                         [0..<prod_list s])))
      in if keep then r
         else \<lparr>shape = map (\<lambda>d. s ! d) (filter (\<lambda>d. d \<notin> set axs) [0..<n]), elems = elems r\<rparr>)"

text \<open>\<open>ndarray.sum(axis, keepdims)\<close>; an empty tuple of axes sums over nothing.\<close>

definition np_sum :: "ndarray \<Rightarrow> axis_arg \<Rightarrow> bool \<Rightarrow> pyerror + ndarray" where
  "np_sum a axis keep =
     (case axis of
        AxNone \<Rightarrow> Inr (reduce_axes a [0..<length (shape a)] keep)
      | AxInt i \<Rightarrow>
         (case norm_axis (length (shape a)) i of
            Inl e \<Rightarrow> Inl e
          | Inr k \<Rightarrow> Inr (reduce_axes a [k] keep))
      | AxTuple ax \<Rightarrow>
         (case norm_axes (length (shape a)) ax of
            Inl e \<Rightarrow> Inl e
          | Inr ks \<Rightarrow> if distinct ks then Inr (reduce_axes a ks keep) else Inl ValueError))"

text \<open>\<open>ndarray.squeeze(axes)\<close> for a tuple of non-negative axes, each of length one.\<close>

definition np_squeeze :: "ndarray \<Rightarrow> nat list \<Rightarrow> pyerror + ndarray" where
  "np_squeeze a axs =
     (if \<exists>d \<in> set axs. length (shape a) \<le> d then Inl AxisError
      else if \<exists>d \<in> set axs. shape a ! d \<noteq> 1 then Inl ValueError
      else Inr \<lparr>shape = map (\<lambda>d. shape a ! d)
                           (filter (\<lambda>d. d \<notin> set axs) [0..<length (shape a)]),
               elems = elems a\<rparr>)"

text \<open>
  The elementwise kernels of the activation functions. The exponential and the hyperbolic
  tangent are the functions on the real numbers; they have no equations to compute with.
\<close>

definition real_exp :: "real \<Rightarrow> real" where
  [code del]: "real_exp v = exp v"

definition real_tanh :: "real \<Rightarrow> real" where
  [code del]: "real_tanh v = tanh v"

definition np_map :: "(real \<Rightarrow> real) \<Rightarrow> ndarray \<Rightarrow> ndarray" where
  "np_map g a = \<lparr>shape = shape a, elems = map g (elems a)\<rparr>"

text \<open>
  \<open>a.dot(b)\<close>: with a zero-dimensional operand it is the elementwise product;
  otherwise the last axis of \<open>a\<close> is contracted with the second-to-last axis of \<open>b\<close>
  (its only axis when \<open>b\<close> is one-dimensional).
\<close>

definition np_dot :: "ndarray \<Rightarrow> ndarray \<Rightarrow> pyerror + ndarray" where
  "np_dot a b =
     (if shape a = [] \<or> shape b = [] then np_binop (*) a b
      else
        let sa = shape a; sb = shape b;
            c = (if length sb = 1 then 0 else length sb - 2);
            na = length sa - 1
        in if last sa \<noteq> sb ! c then Inl ValueError
           else Inr (build (butlast sa @ take c sb @ drop (Suc c) sb)
                  (\<lambda>j. sum_list (map (\<lambda>k. item a (take na j @ [k]) *
                                            item b (take c (drop na j) @ [k] @ drop c (drop na j)))
                                      [0..<last sa]))))"

section \<open>The heap: Variable and Function objects\<close>

text \<open>
  Objects have identity, so \<open>Variable\<close> and \<open>Function\<close> objects live in a heap and are
  referred to by their position in it. \<open>grad\<close> holds whatever Python value was stored
  there (\<open>PNone\<close> when absent). The \<open>name\<close> attribute takes no part in any computation
  and is left out.
\<close>

record variable =
  data :: "ndarray option"
  grad :: pyval
  creator :: "nat option"
  generation :: nat

text \<open>
  The subclasses of \<open>Function\<close> of \<open>base.py\<close> and \<open>functions.py\<close>, with the
  arguments of their constructors. The exponent of \<open>Pow\<close> is an integer; a target shape
  is a tuple of non-negative integers.
\<close>

datatype fkind =
    Add | Sub | Mul | Div | Neg | Pow int
  | Reshape "nat list" | Transpose "int list option"
  | BroadcastTo "nat list" | SumTo "nat list" | Sum axis_arg bool | MatMul
  | Linear | ReLU | Sigmoid | Softmax axis_arg | Tanh | MeanSquaredError

text \<open>
  A \<open>Function\<close> object: the attributes \<open>forward\<close> saves (\<open>x0_shape\<close>, \<open>x1_shape\<close>,
  \<open>x_shape\<close>, \<open>mask\<close>) and those \<open>__call__\<close> sets when gradient tracking is on; an attribute
  that is not set is \<open>None\<close>. \<open>outputs\<close> holds weak references: objects of the heap
  are never reclaimed in the model, and every output that is dereferenced by the code
  is still alive there (it is the node whose gradient put the function on the worklist).
\<close>

record func =
  kind :: fkind
  x0_shape :: "nat list option"
  x1_shape :: "nat list option"
  x_shape :: "nat list option"
  mask :: "ndarray option"
  inputs :: "nat list option"
  outputs :: "nat list option"
  f_generation :: "nat option"

record heap =
  vars :: "variable list"
  funs :: "func list"
  enable_backprop :: bool

subsection \<open>Computations that change the heap or raise\<close>

type_synonym 'a M = "heap \<Rightarrow> pyerror + ('a \<times> heap)"

definition ret :: "'a \<Rightarrow> 'a M" where
  "ret x = (\<lambda>h. Inr (x, h))"

definition raise :: "pyerror \<Rightarrow> 'a M" where
  "raise e = (\<lambda>h. Inl e)"

definition bnd :: "'a M \<Rightarrow> ('a \<Rightarrow> 'b M) \<Rightarrow> 'b M" where
  "bnd m f = (\<lambda>h. case m h of Inl e \<Rightarrow> Inl e | Inr (x, h') \<Rightarrow> f x h')"

definition lift :: "pyerror + 'a \<Rightarrow> 'a M" where
  "lift r = (\<lambda>h. case r of Inl e \<Rightarrow> Inl e | Inr x \<Rightarrow> Inr (x, h))"

fun mapM :: "('a \<Rightarrow> 'b M) \<Rightarrow> 'a list \<Rightarrow> 'b list M" where
  "mapM f [] = ret []"
| "mapM f (x # xs) = bnd (f x) (\<lambda>y. bnd (mapM f xs) (\<lambda>ys. ret (y # ys)))"

definition new_variable :: "ndarray option \<Rightarrow> nat M" where
  "new_variable d = (\<lambda>h.
     Inr (length (vars h),
          h\<lparr>vars := vars h @ [\<lparr>data = d, grad = PNone, creator = None, generation = 0\<rparr>]\<rparr>))"

definition fresh_function :: "fkind \<Rightarrow> func" where
  "fresh_function k = \<lparr>kind = k, x0_shape = None, x1_shape = None, x_shape = None,
                        mask = None, inputs = None, outputs = None, f_generation = None\<rparr>"

definition new_function :: "fkind \<Rightarrow> nat M" where
  "new_function k = (\<lambda>h. Inr (length (funs h), h\<lparr>funs := funs h @ [fresh_function k]\<rparr>))"

section \<open>\<open>Variable\<close>, \<open>as_variable\<close>, \<open>as_array\<close>\<close>

text \<open>
  \<open>Variable.__init__\<close>: data that is neither \<open>None\<close> nor an \<open>ndarray\<close> raises
  \<open>TypeError\<close>; otherwise a fresh leaf is created.
\<close>

definition Variable_init :: "pyval \<Rightarrow> nat M" where
  "Variable_init d =
     (case d of
        PNone \<Rightarrow> new_variable None
      | PArr a \<Rightarrow> new_variable (Some a)
      | _ \<Rightarrow> raise TypeError)"

definition as_variable :: "pyval \<Rightarrow> nat M" where
  "as_variable x = (case x of PVar v \<Rightarrow> ret v | _ \<Rightarrow> Variable_init x)"

definition as_array :: "pyval \<Rightarrow> pyval" where
  "as_array x =
     (case x of PFloat r \<Rightarrow> PArr (scalar0 r) | PNpScalar r \<Rightarrow> PArr (scalar0 r) | _ \<Rightarrow> x)"

definition shape_of :: "pyval \<Rightarrow> nat list M" where
  "shape_of x = (\<lambda>h.
     case x of
       PVar v \<Rightarrow> (case data (vars h ! v) of
                    None \<Rightarrow> Inl AttributeError
                  | Some a \<Rightarrow> Inr (shape a, h))
     | PArr a \<Rightarrow> Inr (shape a, h)
     | PNpScalar r \<Rightarrow> Inr ([], h)
     | _ \<Rightarrow> Inl AttributeError)"

definition set_grad :: "nat \<Rightarrow> pyval \<Rightarrow> unit M" where
  "set_grad v g = (\<lambda>h. Inr ((), h\<lparr>vars := (vars h)[v := (vars h ! v)\<lparr>grad := g\<rparr>]\<rparr>))"

definition cleargrad :: "nat \<Rightarrow> unit M" where
  "cleargrad v = set_grad v PNone"

text \<open>\<open>Variable.set_creator\<close>: reads \<open>func.generation\<close>, which must have been set.\<close>

definition set_creator :: "nat \<Rightarrow> nat \<Rightarrow> unit M" where
  "set_creator v f = (\<lambda>h.
     case f_generation (funs h ! f) of
       None \<Rightarrow> Inl AttributeError
     | Some g \<Rightarrow>
         Inr ((), h\<lparr>vars := (vars h)[v := (vars h ! v)\<lparr>creator := Some f,
                                                      generation := g + 1\<rparr>]\<rparr>))"

section \<open>\<open>Function\<close>: the forward rules and \<open>__call__\<close>\<close>

text \<open>\<open>utils.sum_to\<close>.\<close>

definition utils_sum_to :: "ndarray \<Rightarrow> nat list \<Rightarrow> pyerror + ndarray" where
  "utils_sum_to x s =
     (let ndim = length s;
          lead = int (length (shape x)) - int ndim;
          lead_axis = map int [0..<nat lead];
          axis = map (\<lambda>i. int i + lead) (filter (\<lambda>i. s ! i = 1) [0..<ndim])
      in case np_sum x (AxTuple (lead_axis @ axis)) True of
           Inl e \<Rightarrow> Inl e
         | Inr y \<Rightarrow> if lead > 0 then np_squeeze y [0..<nat lead] else Inr y)"

text \<open>
  \<open>y += b\<close> in \<open>Linear.forward\<close>: an array is added to in place, so \<open>b\<close> has to
  broadcast to the shape of \<open>y\<close>; a zero-dimensional \<open>y\<close> is a NumPy scalar and
  \<open>y + b\<close> is bound to the name instead.
\<close>

definition inplace_add :: "ndarray \<Rightarrow> ndarray \<Rightarrow> pyerror + ndarray" where
  "inplace_add y b =
     (if shape y = [] then np_binop (+) y b
      else case np_broadcast_to b (shape y) of
             Inl e \<Rightarrow> Inl e
           | Inr b' \<Rightarrow> Inr \<lparr>shape = shape y, elems = map2 (+) (elems y) (elems b')\<rparr>)"

text \<open>
  The \<open>forward\<close> method of each subclass, on the \<open>data\<close> of the inputs (\<open>None\<close> when a
  Variable holds no data). It returns the result and the Function object with the
  attributes it saved. A wrong number of arguments is a \<open>TypeError\<close>; an operation on
  \<open>None\<close> raises \<open>AttributeError\<close> where an attribute of it is read and \<open>TypeError\<close>
  where it is an operand. The mean of \<open>MeanSquaredError\<close> divides by \<open>len(error)\<close>,
  which a zero-dimensional array does not have.
\<close>

definition forward :: "fkind \<Rightarrow> func \<Rightarrow> ndarray option list \<Rightarrow> pyerror + (ndarray \<times> func)" where
  "forward k f xs =
     (case k of
        Add \<Rightarrow>
          (case xs of
             [Some x0, Some x1] \<Rightarrow>
               (case np_binop (+) x0 x1 of
                  Inl e \<Rightarrow> Inl e
                | Inr y \<Rightarrow> Inr (y, f\<lparr>x0_shape := Some (shape x0), x1_shape := Some (shape x1)\<rparr>))
           | [_, _] \<Rightarrow> Inl AttributeError
           | _ \<Rightarrow> Inl TypeError)
      | Sub \<Rightarrow>
          (case xs of
             [Some x0, Some x1] \<Rightarrow>
               (case np_binop (-) x0 x1 of
                  Inl e \<Rightarrow> Inl e
                | Inr y \<Rightarrow> Inr (y, f\<lparr>x0_shape := Some (shape x0), x1_shape := Some (shape x1)\<rparr>))
           | [_, _] \<Rightarrow> Inl AttributeError
           | _ \<Rightarrow> Inl TypeError)
      | Mul \<Rightarrow>
          (case xs of
             [Some x0, Some x1] \<Rightarrow>
               (case np_binop (*) x0 x1 of Inl e \<Rightarrow> Inl e | Inr y \<Rightarrow> Inr (y, f))
           | _ \<Rightarrow> Inl TypeError)
      | Div \<Rightarrow>
          (case xs of
             [Some x0, Some x1] \<Rightarrow>
               (case np_binop (/) x0 x1 of Inl e \<Rightarrow> Inl e | Inr y \<Rightarrow> Inr (y, f))
           | _ \<Rightarrow> Inl TypeError)
      | Neg \<Rightarrow>
          (case xs of [Some x] \<Rightarrow> Inr (np_neg x, f) | _ \<Rightarrow> Inl TypeError)
      | Pow a \<Rightarrow>
          (case xs of [Some x] \<Rightarrow> Inr (np_pow x a, f) | _ \<Rightarrow> Inl TypeError)
      | Reshape s \<Rightarrow>
          (case xs of
             [Some x] \<Rightarrow>
               (case np_reshape x s of
                  Inl e \<Rightarrow> Inl e
                | Inr y \<Rightarrow> Inr (y, f\<lparr>x_shape := Some (shape x)\<rparr>))
           | [None] \<Rightarrow> Inl AttributeError
           | _ \<Rightarrow> Inl TypeError)
      | Transpose axes \<Rightarrow>
          (case xs of
             [Some x] \<Rightarrow>
               (case np_transpose x axes of Inl e \<Rightarrow> Inl e | Inr y \<Rightarrow> Inr (y, f))
           | [None] \<Rightarrow> Inl AttributeError
           | _ \<Rightarrow> Inl TypeError)
      | BroadcastTo s \<Rightarrow>
          (case xs of
             [Some x] \<Rightarrow>
               (case np_broadcast_to x s of
                  Inl e \<Rightarrow> Inl e
                | Inr y \<Rightarrow> Inr (y, f\<lparr>x_shape := Some (shape x)\<rparr>))
           | [None] \<Rightarrow> Inl AttributeError
           | _ \<Rightarrow> Inl TypeError)
      | SumTo s \<Rightarrow>
          (case xs of
             [Some x] \<Rightarrow>
               (case utils_sum_to x s of
                  Inl e \<Rightarrow> Inl e
                | Inr y \<Rightarrow> Inr (y, f\<lparr>x_shape := Some (shape x)\<rparr>))
           | [None] \<Rightarrow> Inl AttributeError
           | _ \<Rightarrow> Inl TypeError)
      | Sum axis keepdims \<Rightarrow>
          (case xs of
             [Some x] \<Rightarrow>
               (case np_sum x axis keepdims of
                  Inl e \<Rightarrow> Inl e
                | Inr y \<Rightarrow> Inr (y, f\<lparr>x_shape := Some (shape x)\<rparr>))
           | [None] \<Rightarrow> Inl AttributeError
           | _ \<Rightarrow> Inl TypeError)
      | MatMul \<Rightarrow>
          (case xs of
             [Some x, Some W] \<Rightarrow>
               (case np_dot x W of Inl e \<Rightarrow> Inl e | Inr y \<Rightarrow> Inr (y, f))
           | [Some x, None] \<Rightarrow> Inl TypeError
           | [None, _] \<Rightarrow> Inl AttributeError
           | _ \<Rightarrow> Inl TypeError)
      | Linear \<Rightarrow>
          (case xs of
             [Some x, Some W, b] \<Rightarrow>
               (case np_dot x W of
                  Inl e \<Rightarrow> Inl e
                | Inr y \<Rightarrow>
                   (case b of
                      None \<Rightarrow> Inr (y, f)
                    | Some bb \<Rightarrow>
                       (case inplace_add y bb of Inl e \<Rightarrow> Inl e | Inr y' \<Rightarrow> Inr (y', f))))
           | [Some x, None, _] \<Rightarrow> Inl TypeError
           | [None, _, _] \<Rightarrow> Inl AttributeError
           | _ \<Rightarrow> Inl TypeError)
      | ReLU \<Rightarrow>
          (case xs of
             [Some x] \<Rightarrow>
               Inr (np_map (\<lambda>v. max v 0) x,
                    f\<lparr>mask := Some (np_map (\<lambda>v. if v > 0 then 1 else 0) x)\<rparr>)
           | _ \<Rightarrow> Inl TypeError)
      | Sigmoid \<Rightarrow>
          (case xs of
             [Some x] \<Rightarrow> Inr (np_map (\<lambda>v. 1 / (1 + real_exp (- v))) x, f)
           | _ \<Rightarrow> Inl TypeError)
      | Softmax axis \<Rightarrow>
          (case xs of
             [Some x] \<Rightarrow>
               (case np_sum (np_map real_exp x) axis True of
                  Inl e \<Rightarrow> Inl e
                | Inr t \<Rightarrow>
                   (case np_binop (/) (np_map real_exp x) t of
                      Inl e \<Rightarrow> Inl e
                    | Inr y \<Rightarrow> Inr (y, f)))
           | _ \<Rightarrow> Inl TypeError)
      | Tanh \<Rightarrow>
          (case xs of [Some x] \<Rightarrow> Inr (np_map real_tanh x, f) | _ \<Rightarrow> Inl TypeError)
      | MeanSquaredError \<Rightarrow>
          (case xs of
             [Some x0, Some x1] \<Rightarrow>
               (case np_binop (-) x0 x1 of
                  Inl e \<Rightarrow> Inl e
                | Inr err \<Rightarrow>
                   (case shape err of
                      [] \<Rightarrow> Inl TypeError
                    | n # _ \<Rightarrow>
                       Inr (scalar0 (sum_list (map (\<lambda>v. v ^ 2) (elems err)) / real n), f)))
           | _ \<Rightarrow> Inl TypeError))"

text \<open>
  \<open>Function.__call__\<close> on the Function object \<open>f\<close>. Every \<open>forward\<close> above returns
  one array, so there is one output and it is the value returned. NumPy hands back a
  zero-dimensional result as a NumPy scalar and \<open>as_array\<close> turns it into an array
  again; the kernels return the array directly.
\<close>

definition run_forward :: "nat \<Rightarrow> nat list \<Rightarrow> ndarray M" where
  "run_forward f ins = (\<lambda>h.
     case forward (kind (funs h ! f)) (funs h ! f) (map (\<lambda>x. data (vars h ! x)) ins) of
       Inl e \<Rightarrow> Inl e
     | Inr (y, f') \<Rightarrow> Inr (y, h\<lparr>funs := (funs h)[f := f']\<rparr>))"

definition set_generation :: "nat \<Rightarrow> nat list \<Rightarrow> unit M" where
  "set_generation f ins = (\<lambda>h.
     if ins = [] then Inl ValueError
     else Inr ((), h\<lparr>funs := (funs h)[f := (funs h ! f)
            \<lparr>f_generation := Some (Max (set (map (\<lambda>x. generation (vars h ! x)) ins)))\<rparr>]\<rparr>))"

definition set_inputs_outputs :: "nat \<Rightarrow> nat list \<Rightarrow> nat list \<Rightarrow> unit M" where
  "set_inputs_outputs f ins outs = (\<lambda>h.
     Inr ((), h\<lparr>funs := (funs h)[f := (funs h ! f)\<lparr>inputs := Some ins, outputs := Some outs\<rparr>]\<rparr>))"

text \<open>The block under \<open>if Config.enable_backprop\<close>.\<close>

definition record_graph :: "nat \<Rightarrow> nat list \<Rightarrow> nat \<Rightarrow> unit M" where
  "record_graph f ins out = (\<lambda>h.
     if enable_backprop h
     then bnd (set_generation f ins) (\<lambda>_.
          bnd (set_creator out f) (\<lambda>_.
          set_inputs_outputs f ins [out])) h
     else Inr ((), h))"

definition Function_call :: "nat \<Rightarrow> pyval list \<Rightarrow> nat M" where
  "Function_call f args =
     bnd (mapM as_variable args) (\<lambda>ins.
     bnd (run_forward f ins) (\<lambda>y.
     bnd (Variable_init (as_array (PArr y))) (\<lambda>out.
     bnd (record_graph f ins out) (\<lambda>_.
     ret out))))"

text \<open>A call \<open>K(...)(args)\<close> as the library writes it: a fresh Function object, called once.\<close>

definition call :: "fkind \<Rightarrow> pyval list \<Rightarrow> nat M" where
  "call k args = bnd (new_function k) (\<lambda>f. Function_call f args)"

section \<open>The functions of \<open>base.py\<close> and \<open>functions.py\<close>\<close>

definition add :: "pyval \<Rightarrow> pyval \<Rightarrow> nat M" where
  "add x0 x1 = call Add [x0, as_array x1]"

definition sub :: "pyval \<Rightarrow> pyval \<Rightarrow> nat M" where
  "sub x0 x1 = call Sub [x0, as_array x1]"

definition rsub :: "pyval \<Rightarrow> pyval \<Rightarrow> nat M" where
  "rsub x0 x1 = sub (as_array x1) x0"

definition mul :: "pyval \<Rightarrow> pyval \<Rightarrow> nat M" where
  "mul x0 x1 = call Mul [x0, as_array x1]"

definition div_f :: "pyval \<Rightarrow> pyval \<Rightarrow> nat M" where
  "div_f x0 x1 = call Div [x0, as_array x1]"

definition rdiv :: "pyval \<Rightarrow> pyval \<Rightarrow> nat M" where
  "rdiv x0 x1 = div_f (as_array x1) x0"

definition neg :: "pyval \<Rightarrow> nat M" where
  "neg x = call Neg [x]"

definition pow :: "pyval \<Rightarrow> int \<Rightarrow> nat M" where
  "pow x a = call (Pow a) [x]"

definition reshape :: "pyval \<Rightarrow> nat list \<Rightarrow> nat M" where
  "reshape x s = bnd (shape_of x) (\<lambda>xs. if xs = s then as_variable x else call (Reshape s) [x])"

definition transpose :: "pyval \<Rightarrow> int list option \<Rightarrow> nat M" where
  "transpose x axes = call (Transpose axes) [x]"

definition broadcast_to :: "pyval \<Rightarrow> nat list \<Rightarrow> nat M" where
  "broadcast_to x s =
     bnd (shape_of x) (\<lambda>xs. if xs = s then as_variable x else call (BroadcastTo s) [x])"

definition sum_to :: "pyval \<Rightarrow> nat list \<Rightarrow> nat M" where
  "sum_to x s = bnd (shape_of x) (\<lambda>xs. if xs = s then as_variable x else call (SumTo s) [x])"

definition sum_f :: "pyval \<Rightarrow> axis_arg \<Rightarrow> bool \<Rightarrow> nat M" where
  "sum_f x axis keepdims = call (Sum axis keepdims) [x]"

definition matmul :: "pyval \<Rightarrow> pyval \<Rightarrow> nat M" where
  "matmul x W = call MatMul [x, W]"

subsection \<open>Python's operators on values\<close>

text \<open>
  \<open>setup_operator\<close> binds \<open>+ - * /\<close>, unary minus and \<open>**\<close> of \<open>Variable\<close> to the
  functions above. With a Variable on the left its method runs; with a Variable only on
  the right the reflected method runs (\<open>__array_priority__\<close> makes an array on the left
  give way). Without a Variable the operands are numbers and arrays, and a
  zero-dimensional result of NumPy is a NumPy scalar.
\<close>

datatype binop = OAdd | OSub | OMul | ODiv

definition as_num :: "pyval \<Rightarrow> ndarray option" where
  "as_num x =
     (case x of PFloat r \<Rightarrow> Some (scalar0 r) | PNpScalar r \<Rightarrow> Some (scalar0 r)
      | PArr a \<Rightarrow> Some a | _ \<Rightarrow> None)"

definition from_num :: "ndarray \<Rightarrow> pyval" where
  "from_num a = (if shape a = [] then PNpScalar (hd (elems a)) else PArr a)"

definition is_PFloat :: "pyval \<Rightarrow> bool" where
  "is_PFloat x = (case x of PFloat r \<Rightarrow> True | _ \<Rightarrow> False)"

definition binop_fun :: "binop \<Rightarrow> real \<Rightarrow> real \<Rightarrow> real" where
  "binop_fun op = (case op of OAdd \<Rightarrow> (+) | OSub \<Rightarrow> (-) | OMul \<Rightarrow> (*) | ODiv \<Rightarrow> (/))"

definition raw_binop :: "binop \<Rightarrow> pyval \<Rightarrow> pyval \<Rightarrow> pyerror + pyval" where
  "raw_binop op a b =
     (case (as_num a, as_num b) of
        (Some x, Some y) \<Rightarrow>
          if is_PFloat a \<and> is_PFloat b
          then if op = ODiv \<and> hd (elems y) = 0 then Inl ZeroDivisionError
               else Inr (PFloat (binop_fun op (hd (elems x)) (hd (elems y))))
          else (case np_binop (binop_fun op) x y of
                  Inl e \<Rightarrow> Inl e
                | Inr r \<Rightarrow> Inr (from_num r))
      | _ \<Rightarrow> Inl TypeError)"

definition py_binop :: "binop \<Rightarrow> pyval \<Rightarrow> pyval \<Rightarrow> pyval M" where
  "py_binop op a b =
     (case a of
        PVar va \<Rightarrow>
          bnd (case op of OAdd \<Rightarrow> add a b | OSub \<Rightarrow> sub a b
               | OMul \<Rightarrow> mul a b | ODiv \<Rightarrow> div_f a b) (\<lambda>r. ret (PVar r))
      | _ \<Rightarrow>
         (case b of
            PVar vb \<Rightarrow>
              bnd (case op of OAdd \<Rightarrow> add b a | OSub \<Rightarrow> rsub b a
                   | OMul \<Rightarrow> mul b a | ODiv \<Rightarrow> rdiv b a) (\<lambda>r. ret (PVar r))
          | _ \<Rightarrow> lift (raw_binop op a b)))"

definition py_neg :: "pyval \<Rightarrow> pyval M" where
  "py_neg a =
     (case a of
        PVar v \<Rightarrow> bnd (neg a) (\<lambda>r. ret (PVar r))
      | PArr x \<Rightarrow> ret (from_num (np_neg x))
      | PFloat r \<Rightarrow> ret (PFloat (- r))
      | PNpScalar r \<Rightarrow> ret (PNpScalar (- r))
      | PNone \<Rightarrow> raise TypeError)"

section \<open>The backward rules\<close>

text \<open>Python's \<open>list.insert\<close>: an index past either end is clamped.\<close>

definition py_insert :: "int \<Rightarrow> 'a \<Rightarrow> 'a list \<Rightarrow> 'a list" where
  "py_insert i x xs =
     (let n = int (length xs);
          k = nat (if i < 0 then max 0 (i + n) else min i n)
      in take k xs @ [x] @ drop k xs)"

text \<open>
  \<open>utils.reshape_sum_backward\<close>. When the axes have to be put back, \<open>dy_shape\<close> is
  a Python list. \<open>Variable.reshape\<close> unpacks its argument only when it is a tuple, so
  for a Variable \<open>dy\<close> the list reaches \<open>ndarray.reshape\<close> wrapped in a
  one-element tuple, which NumPy rejects with \<open>TypeError\<close>; an array \<open>dy\<close> is
  reshaped by NumPy itself. Otherwise \<open>dy_shape\<close> is \<open>dy.shape\<close> and the reshape
  of a Variable is \<open>functions.reshape\<close> to its own shape.
\<close>

definition reshape_sum_backward :: "pyval \<Rightarrow> nat list \<Rightarrow> axis_arg \<Rightarrow> bool \<Rightarrow> pyval M" where
  "reshape_sum_backward dy xshape axis keepdims =
     (let ndim = length xshape;
          tupled_axis = (case axis of AxNone \<Rightarrow> None | AxInt a \<Rightarrow> Some [a]
                         | AxTuple ax \<Rightarrow> Some ax)
      in if \<not> (ndim = 0 \<or> tupled_axis = None \<or> keepdims)
         then
           let actual_axis = map (\<lambda>a. if a \<ge> 0 then a else a + int ndim) (the tupled_axis)
           in bnd (shape_of dy) (\<lambda>s.
                let dy_shape = fold (\<lambda>a sh. py_insert a 1 sh) (sort actual_axis) s
                in case dy of
                     PVar v \<Rightarrow> raise TypeError
                   | _ \<Rightarrow> (case as_num dy of
                             None \<Rightarrow> raise AttributeError
                           | Some a \<Rightarrow> bnd (lift (np_reshape a dy_shape)) (\<lambda>r. ret (PArr r))))
         else
           bnd (shape_of dy) (\<lambda>dy_shape.
             case dy of
               PVar v \<Rightarrow> bnd (reshape dy dy_shape) (\<lambda>r. ret (PVar r))
             | _ \<Rightarrow> (case as_num dy of
                       None \<Rightarrow> raise AttributeError
                     | Some a \<Rightarrow> bnd (lift (np_reshape a dy_shape)) (\<lambda>r. ret (PArr r)))))"

text \<open>Unpacking \<open>self.inputs\<close> into one, two or three names; \<open>self.outputs[0]()\<close>.\<close>

definition inputs1 :: "nat \<Rightarrow> nat M" where
  "inputs1 f = (\<lambda>h.
     case inputs (funs h ! f) of
       None \<Rightarrow> Inl AttributeError
     | Some [x] \<Rightarrow> Inr (x, h)
     | Some _ \<Rightarrow> Inl ValueError)"

definition inputs2 :: "nat \<Rightarrow> (nat \<times> nat) M" where
  "inputs2 f = (\<lambda>h.
     case inputs (funs h ! f) of
       None \<Rightarrow> Inl AttributeError
     | Some [x0, x1] \<Rightarrow> Inr ((x0, x1), h)
     | Some _ \<Rightarrow> Inl ValueError)"

definition inputs3 :: "nat \<Rightarrow> (nat \<times> nat \<times> nat) M" where
  "inputs3 f = (\<lambda>h.
     case inputs (funs h ! f) of
       None \<Rightarrow> Inl AttributeError
     | Some [x0, x1, x2] \<Rightarrow> Inr ((x0, x1, x2), h)
     | Some _ \<Rightarrow> Inl ValueError)"

definition output0 :: "nat \<Rightarrow> nat M" where
  "output0 f = (\<lambda>h.
     case outputs (funs h ! f) of
       None \<Rightarrow> Inl AttributeError
     | Some [] \<Rightarrow> Inl IndexError
     | Some (y # _) \<Rightarrow> Inr (y, h))"

definition saved :: "(func \<Rightarrow> 'a option) \<Rightarrow> nat \<Rightarrow> 'a M" where
  "saved attr f = (\<lambda>h.
     case attr (funs h ! f) of None \<Rightarrow> Inl AttributeError | Some s \<Rightarrow> Inr (s, h))"

definition Add_backward :: "nat \<Rightarrow> pyval \<Rightarrow> pyval list M" where
  "Add_backward f dy =
     bnd (saved x0_shape f) (\<lambda>s0.
     bnd (saved x1_shape f) (\<lambda>s1.
       if s0 \<noteq> s1
       then bnd (sum_to dy s0) (\<lambda>dx0.
            bnd (sum_to dy s1) (\<lambda>dx1. ret [PVar dx0, PVar dx1]))
       else ret [dy, dy]))"

definition Sub_backward :: "nat \<Rightarrow> pyval \<Rightarrow> pyval list M" where
  "Sub_backward f dy =
     bnd (py_neg dy) (\<lambda>ndy.
     bnd (saved x0_shape f) (\<lambda>s0.
     bnd (saved x1_shape f) (\<lambda>s1.
       if s0 \<noteq> s1
       then bnd (sum_to dy s0) (\<lambda>dx0.
            bnd (sum_to ndy s1) (\<lambda>dx1. ret [PVar dx0, PVar dx1]))
       else ret [dy, ndy])))"

definition Mul_backward :: "nat \<Rightarrow> pyval \<Rightarrow> pyval list M" where
  "Mul_backward f dy =
     bnd (inputs2 f) (\<lambda>(x0, x1).
     bnd (py_binop OMul dy (PVar x1)) (\<lambda>dx0.
     bnd (py_binop OMul dy (PVar x0)) (\<lambda>dx1.
     bnd (shape_of (PVar x0)) (\<lambda>s0.
     bnd (shape_of (PVar x1)) (\<lambda>s1.
       if s0 \<noteq> s1
       then bnd (sum_to dx0 s0) (\<lambda>dx0'.
            bnd (sum_to dx1 s1) (\<lambda>dx1'. ret [PVar dx0', PVar dx1']))
       else ret [dx0, dx1])))))"

definition Div_backward :: "nat \<Rightarrow> pyval \<Rightarrow> pyval list M" where
  "Div_backward f dy =
     bnd (inputs2 f) (\<lambda>(x0, x1).
     bnd (py_binop ODiv dy (PVar x1)) (\<lambda>dx0.
     bnd (neg (PVar x0)) (\<lambda>nx0.
     bnd (pow (PVar x1) 2) (\<lambda>sq.
     bnd (div_f (PVar nx0) (PVar sq)) (\<lambda>q.
     bnd (py_binop OMul dy (PVar q)) (\<lambda>dx1.
     bnd (shape_of (PVar x0)) (\<lambda>s0.
     bnd (shape_of (PVar x1)) (\<lambda>s1.
       if s0 \<noteq> s1
       then bnd (sum_to dx0 s0) (\<lambda>dx0'.
            bnd (sum_to dx1 s1) (\<lambda>dx1'. ret [PVar dx0', PVar dx1']))
       else ret [dx0, dx1]))))))))"

text \<open>\<open>Neg.backward\<close>: \<open>dx = -dy\<close>, then \<open>return -dx\<close>.\<close>

definition Neg_backward :: "nat \<Rightarrow> pyval \<Rightarrow> pyval list M" where
  "Neg_backward f dy =
     bnd (py_neg dy) (\<lambda>dx.
     bnd (py_neg dx) (\<lambda>r. ret [r]))"

definition Pow_backward :: "nat \<Rightarrow> int \<Rightarrow> pyval \<Rightarrow> pyval list M" where
  "Pow_backward f a dy =
     bnd (inputs1 f) (\<lambda>x.
     bnd (pow (PVar x) (a - 1)) (\<lambda>p.
     bnd (py_binop OMul (PFloat (of_int a)) (PVar p)) (\<lambda>m.
     bnd (py_binop OMul m dy) (\<lambda>dx. ret [dx]))))"

definition Reshape_backward :: "nat \<Rightarrow> pyval \<Rightarrow> pyval list M" where
  "Reshape_backward f dy =
     bnd (saved x_shape f) (\<lambda>s.
     bnd (reshape dy s) (\<lambda>r. ret [PVar r]))"

definition Transpose_backward :: "nat \<Rightarrow> int list option \<Rightarrow> pyval \<Rightarrow> pyval list M" where
  "Transpose_backward f axes dy =
     (case axes of
        None \<Rightarrow> bnd (transpose dy None) (\<lambda>r. ret [PVar r])
      | Some ax \<Rightarrow> bnd (transpose dy (Some (argsort ax))) (\<lambda>r. ret [PVar r]))"

definition BroadcastTo_backward :: "nat \<Rightarrow> pyval \<Rightarrow> pyval list M" where
  "BroadcastTo_backward f dy =
     bnd (saved x_shape f) (\<lambda>s.
     bnd (sum_to dy s) (\<lambda>dx. ret [PVar dx]))"

definition SumTo_backward :: "nat \<Rightarrow> pyval \<Rightarrow> pyval list M" where
  "SumTo_backward f dy =
     bnd (saved x_shape f) (\<lambda>s.
     bnd (broadcast_to dy s) (\<lambda>dx. ret [PVar dx]))"

definition Sum_backward :: "nat \<Rightarrow> axis_arg \<Rightarrow> bool \<Rightarrow> pyval \<Rightarrow> pyval list M" where
  "Sum_backward f axis keepdims dy =
     bnd (saved x_shape f) (\<lambda>s.
     bnd (reshape_sum_backward dy s axis keepdims) (\<lambda>dy'.
     bnd (broadcast_to dy' s) (\<lambda>dx. ret [PVar dx])))"

definition MatMul_backward :: "nat \<Rightarrow> pyval \<Rightarrow> pyval list M" where
  "MatMul_backward f dy =
     bnd (inputs2 f) (\<lambda>(x, W).
     bnd (transpose (PVar W) None) (\<lambda>WT.
     bnd (matmul dy (PVar WT)) (\<lambda>dx.
     bnd (transpose (PVar x) None) (\<lambda>xT.
     bnd (matmul (PVar xT) dy) (\<lambda>dW. ret [PVar dx, PVar dW])))))"

text \<open>
  \<open>Linear.backward\<close>: the gradient of the bias is \<open>None\<close> when the bias holds no data.
\<close>

definition Linear_backward :: "nat \<Rightarrow> pyval \<Rightarrow> pyval list M" where
  "Linear_backward f dy =
     bnd (inputs3 f) (\<lambda>(x, W, b).
     bnd (\<lambda>h. if data (vars h ! b) = None then Inr (PNone, h)
              else bnd (shape_of (PVar b)) (\<lambda>s.
                   bnd (sum_to dy s) (\<lambda>r. ret (PVar r))) h) (\<lambda>db.
     bnd (transpose (PVar W) None) (\<lambda>WT.
     bnd (matmul dy (PVar WT)) (\<lambda>dx.
     bnd (transpose (PVar x) None) (\<lambda>xT.
     bnd (matmul (PVar xT) dy) (\<lambda>dW. ret [PVar dx, PVar dW, db]))))))"

definition ReLU_backward :: "nat \<Rightarrow> pyval \<Rightarrow> pyval list M" where
  "ReLU_backward f dy =
     bnd (saved mask f) (\<lambda>m.
     bnd (py_binop OMul dy (PArr m)) (\<lambda>dx. ret [dx]))"

definition Sigmoid_backward :: "nat \<Rightarrow> pyval \<Rightarrow> pyval list M" where
  "Sigmoid_backward f dy =
     bnd (output0 f) (\<lambda>y.
     bnd (py_binop OMul dy (PVar y)) (\<lambda>t.
     bnd (py_binop OSub (PFloat 1) (PVar y)) (\<lambda>u.
     bnd (py_binop OMul t u) (\<lambda>dx. ret [dx]))))"

text \<open>
  \<open>Softmax.backward\<close>: \<open>dx -= y * sumdx\<close> on a Variable is \<open>dx = dx - y * sumdx\<close>.
\<close>

definition Softmax_backward :: "nat \<Rightarrow> axis_arg \<Rightarrow> pyval \<Rightarrow> pyval list M" where
  "Softmax_backward f axis dy =
     bnd (output0 f) (\<lambda>y.
     bnd (mul (PVar y) dy) (\<lambda>dx.
     bnd (sum_f (PVar dx) axis True) (\<lambda>sumdx.
     bnd (mul (PVar y) (PVar sumdx)) (\<lambda>t.
     bnd (sub (PVar dx) (PVar t)) (\<lambda>r. ret [PVar r])))))"

definition Tanh_backward :: "nat \<Rightarrow> pyval \<Rightarrow> pyval list M" where
  "Tanh_backward f dy =
     bnd (output0 f) (\<lambda>y.
     bnd (pow (PVar y) 2) (\<lambda>p.
     bnd (py_binop OSub (PFloat 1) (PVar p)) (\<lambda>u.
     bnd (py_binop OMul dy u) (\<lambda>dx. ret [dx]))))"

text \<open>\<open>len(error)\<close> of a Variable is \<open>len(self.data)\<close>.\<close>

definition len_of :: "nat \<Rightarrow> nat M" where
  "len_of v = (\<lambda>h.
     case data (vars h ! v) of
       None \<Rightarrow> Inl TypeError
     | Some a \<Rightarrow> (case shape a of [] \<Rightarrow> Inl TypeError | n # _ \<Rightarrow> Inr (n, h)))"

definition MeanSquaredError_backward :: "nat \<Rightarrow> pyval \<Rightarrow> pyval list M" where
  "MeanSquaredError_backward f dy =
     bnd (inputs2 f) (\<lambda>(x0, x1).
     bnd (sub (PVar x0) (PVar x1)) (\<lambda>err.
     bnd (py_binop OMul dy (PVar err)) (\<lambda>t.
     bnd (len_of err) (\<lambda>n.
     bnd (if n = 0 then raise ZeroDivisionError else ret (PFloat (2 / real n))) (\<lambda>c.
     bnd (py_binop OMul t c) (\<lambda>dx0.
     bnd (py_neg dx0) (\<lambda>dx1. ret [dx0, dx1])))))))"

text \<open>
  \<open>f.backward(*dys)\<close>, with the result made a tuple as \<open>Variable.backward\<close> does.
  Every rule takes one gradient; another number of them is a \<open>TypeError\<close>.
\<close>

definition backward_rule :: "nat \<Rightarrow> pyval list \<Rightarrow> pyval list M" where
  "backward_rule f dys = (\<lambda>h.
     case dys of
       [dy] \<Rightarrow>
         (case kind (funs h ! f) of
            Add \<Rightarrow> Add_backward f dy h
          | Sub \<Rightarrow> Sub_backward f dy h
          | Mul \<Rightarrow> Mul_backward f dy h
          | Div \<Rightarrow> Div_backward f dy h
          | Neg \<Rightarrow> Neg_backward f dy h
          | Pow a \<Rightarrow> Pow_backward f a dy h
          | Reshape s \<Rightarrow> Reshape_backward f dy h
          | Transpose axes \<Rightarrow> Transpose_backward f axes dy h
          | BroadcastTo s \<Rightarrow> BroadcastTo_backward f dy h
          | SumTo s \<Rightarrow> SumTo_backward f dy h
          | Sum axis keepdims \<Rightarrow> Sum_backward f axis keepdims dy h
          | MatMul \<Rightarrow> MatMul_backward f dy h
          | Linear \<Rightarrow> Linear_backward f dy h
          | ReLU \<Rightarrow> ReLU_backward f dy h
          | Sigmoid \<Rightarrow> Sigmoid_backward f dy h
          | Softmax axis \<Rightarrow> Softmax_backward f axis dy h
          | Tanh \<Rightarrow> Tanh_backward f dy h
          | MeanSquaredError \<Rightarrow> MeanSquaredError_backward f dy h)
     | _ \<Rightarrow> Inl TypeError)"

section \<open>\<open>Variable.backward\<close>\<close>

text \<open>
  The worklist \<open>funcs\<close> and the set \<open>seen_set\<close>. Their members are what
  \<open>x.creator\<close> holds: a Function object or \<open>None\<close>. The set compares by identity.
\<close>

type_synonym worklist = "nat option list \<times> nat option set"

definition has_generation :: "heap \<Rightarrow> nat option \<Rightarrow> bool" where
  "has_generation h x =
     (case x of None \<Rightarrow> False | Some g \<Rightarrow> f_generation (funs h ! g) \<noteq> None)"

definition gen_key :: "heap \<Rightarrow> nat option \<Rightarrow> nat" where
  "gen_key h x = (case x of None \<Rightarrow> 0 | Some g \<Rightarrow> the (f_generation (funs h ! g)))"

text \<open>
  \<open>add_func\<close>: \<open>list.sort\<close> calls the key function on every member of the list before
  it compares anything, so a member without a \<open>generation\<close> attribute (\<open>None\<close> is one)
  raises \<open>AttributeError\<close>. The sort is stable.
\<close>

definition add_func :: "nat option \<Rightarrow> worklist \<Rightarrow> worklist M" where
  "add_func f w = (\<lambda>h.
     case w of (funcs, seen_set) \<Rightarrow>
       if f \<notin> seen_set
       then if list_all (has_generation h) (funcs @ [f])
            then Inr ((sort_key (gen_key h) (funcs @ [f]), insert f seen_set), h)
            else Inl AttributeError
       else Inr (w, h))"

text \<open>
  The body of \<open>for x, dx in zip(f.inputs, dxs)\<close>: first the gradient is stored or added
  to the one that is there, then the creator of \<open>x\<close>, if it has one, is put on the
  worklist.
\<close>

definition accumulate_grad :: "nat \<Rightarrow> pyval \<Rightarrow> unit M" where
  "accumulate_grad x dx = (\<lambda>h.
     if grad (vars h ! x) = PNone then set_grad x dx h
     else bnd (py_binop OAdd (grad (vars h ! x)) dx) (\<lambda>g. set_grad x g) h)"

definition add_creator :: "nat \<Rightarrow> worklist \<Rightarrow> worklist M" where
  "add_creator x w = (\<lambda>h.
     case creator (vars h ! x) of
       None \<Rightarrow> Inr (w, h)
     | Some c \<Rightarrow> add_func (Some c) w h)"

fun accumulate :: "(nat \<times> pyval) list \<Rightarrow> worklist \<Rightarrow> worklist M" where
  "accumulate [] w = ret w"
| "accumulate ((x, dx) # rest) w =
     bnd (accumulate_grad x dx) (\<lambda>_.
     bnd (add_creator x w) (\<lambda>w'.
     accumulate rest w'))"

fun clear_outputs :: "nat list \<Rightarrow> unit M" where
  "clear_outputs [] = ret ()"
| "clear_outputs (y # ys) = bnd (set_grad y PNone) (\<lambda>_. clear_outputs ys)"

text \<open>
  One turn of \<open>while funcs\<close> for a non-empty worklist: it returns the Function object
  popped together with the new worklist.
\<close>

definition loop_body :: "bool \<Rightarrow> worklist \<Rightarrow> (nat \<times> worklist) M" where
  "loop_body retain_grad w =
     (case last (fst w) of
        None \<Rightarrow> raise AttributeError
      | Some f \<Rightarrow>
          bnd (saved outputs f) (\<lambda>outs.
          bnd (\<lambda>h. Inr (map (\<lambda>y. grad (vars h ! y)) outs, h)) (\<lambda>dys.
          bnd (backward_rule f dys) (\<lambda>dxs.
          bnd (saved inputs f) (\<lambda>ins.
          bnd (accumulate (zip ins dxs) (butlast (fst w), snd w)) (\<lambda>w'.
          bnd (if \<not> retain_grad then bnd (saved outputs f) clear_outputs else ret ()) (\<lambda>_.
          ret (f, w'))))))))"

text \<open>
  The loop \<open>while funcs\<close>, with a bound on the number of turns: \<open>None\<close> when the bound
  is reached with work left. The list \<open>tr\<close> is not part of the program's state; it
  records, latest first, what each turn popped with \<open>funcs.pop()\<close> and the worklist the
  pop left behind. A turn that raises has popped as well, so the run that raises returns
  its record too.
\<close>

type_synonym trace = "(nat option \<times> nat option list) list"

fun backward_loop ::
  "nat \<Rightarrow> bool \<Rightarrow> worklist \<Rightarrow> trace \<Rightarrow> heap \<Rightarrow>
   ((pyerror \<times> trace) + (heap \<times> trace)) option" where
  "backward_loop n retain_grad w tr h =
     (if fst w = [] then Some (Inr (h, tr))
      else case n of
             0 \<Rightarrow> None
           | Suc m \<Rightarrow>
               (case loop_body retain_grad w h of
                  Inl e \<Rightarrow> Some (Inl (e, (last (fst w), butlast (fst w)) # tr))
                | Inr ((f, w'), h') \<Rightarrow>
                    backward_loop m retain_grad w' ((Some f, butlast (fst w)) # tr) h'))"

definition seed_grad :: "nat \<Rightarrow> unit M" where
  "seed_grad v = (\<lambda>h.
     if grad (vars h ! v) = PNone
     then bnd (shape_of (PVar v)) (\<lambda>s.
          bnd (Variable_init (PArr (np_ones s))) (\<lambda>g. set_grad v (PVar g))) h
     else Inr ((), h))"

definition backward_trace ::
  "nat \<Rightarrow> bool \<Rightarrow> nat \<Rightarrow> heap \<Rightarrow> ((pyerror \<times> trace) + (heap \<times> trace)) option" where
  "backward_trace v retain_grad n h =
     (case bnd (seed_grad v) (\<lambda>_ h'. add_func (creator (vars h' ! v)) ([], {}) h') h of
        Inl e \<Rightarrow> Some (Inl (e, []))
      | Inr (w, h') \<Rightarrow> backward_loop n retain_grad w [] h')"

text \<open>\<open>Variable.backward(retain_grad)\<close> on the Variable \<open>v\<close>, run for at most \<open>n\<close> turns.\<close>

definition backward :: "nat \<Rightarrow> bool \<Rightarrow> nat \<Rightarrow> heap \<Rightarrow> (pyerror + heap) option" where
  "backward v retain_grad n h =
     (case backward_trace v retain_grad n h of
        None \<Rightarrow> None
      | Some (Inl (e, tr)) \<Rightarrow> Some (Inl e)
      | Some (Inr (h', tr)) \<Rightarrow> Some (Inr h'))"

section \<open>Frames\<close>

text \<open>
  \<open>ext h h'\<close>: the heap \<open>h'\<close> is \<open>h\<close> with more objects; the objects of \<open>h\<close> are
  unchanged. \<open>fext f h h'\<close> allows the Function object \<open>f\<close> to change as well.
  \<open>extends m\<close>: a computation that returns leaves such a heap behind.
\<close>

definition ext :: "heap \<Rightarrow> heap \<Rightarrow> bool" where
  "ext h h' \<longleftrightarrow>
     enable_backprop h' = enable_backprop h \<and>
     length (vars h) \<le> length (vars h') \<and> take (length (vars h)) (vars h') = vars h \<and>
     length (funs h) \<le> length (funs h') \<and> take (length (funs h)) (funs h') = funs h"

definition fext :: "nat \<Rightarrow> heap \<Rightarrow> heap \<Rightarrow> bool" where
  "fext f h h' \<longleftrightarrow>
     enable_backprop h' = enable_backprop h \<and>
     length (funs h') = length (funs h) \<and> (\<forall>g. g \<noteq> f \<longrightarrow> funs h' ! g = funs h ! g) \<and>
     length (vars h) \<le> length (vars h') \<and> take (length (vars h)) (vars h') = vars h"

definition extends :: "'a M \<Rightarrow> bool" where
  "extends m \<longleftrightarrow> (\<forall>h r h'. m h = Inr (r, h') \<longrightarrow> ext h h')"

definition fextends :: "nat \<Rightarrow> 'a M \<Rightarrow> bool" where
  "fextends f m \<longleftrightarrow> (\<forall>h r h'. m h = Inr (r, h') \<longrightarrow> fext f h h')"

definition vext :: "heap \<Rightarrow> heap \<Rightarrow> bool" where
  "vext h h' \<longleftrightarrow>
     enable_backprop h' = enable_backprop h \<and> funs h' = funs h \<and>
     length (vars h) \<le> length (vars h') \<and> take (length (vars h)) (vars h') = vars h"

definition vextends :: "'a M \<Rightarrow> bool" where
  "vextends m \<longleftrightarrow> (\<forall>h r h'. m h = Inr (r, h') \<longrightarrow> vext h h')"

definition empty_heap :: heap where
  "empty_heap = \<lparr>vars = [], funs = [], enable_backprop = True\<rparr>"

definition gsame :: "heap \<Rightarrow> heap \<Rightarrow> bool" where
  "gsame h h' \<longleftrightarrow>
     enable_backprop h' = enable_backprop h \<and>
     length (funs h) \<le> length (funs h') \<and> take (length (funs h)) (funs h') = funs h \<and>
     length (vars h) \<le> length (vars h') \<and>
     (\<forall>v < length (vars h). (vars h' ! v)\<lparr>grad := PNone\<rparr> = (vars h ! v)\<lparr>grad := PNone\<rparr>)"

definition gextends :: "'a M \<Rightarrow> bool" where
  "gextends m \<longleftrightarrow> (\<forall>h r h'. m h = Inr (r, h') \<longrightarrow> gsame h h')"

text \<open>The heap that holds one leaf \<open>Variable(a)\<close> and nothing else.\<close>

definition leaf_heap :: "ndarray \<Rightarrow> heap" where
  "leaf_heap a = \<lparr>vars = [\<lparr>data = Some a, grad = PNone, creator = None, generation = 0\<rparr>],
                 funs = [], enable_backprop = True\<rparr>"

definition arity :: "fkind \<Rightarrow> nat" where
  "arity k =
     (case k of Add \<Rightarrow> 2 | Sub \<Rightarrow> 2 | Mul \<Rightarrow> 2 | Div \<Rightarrow> 2 | MatMul \<Rightarrow> 2
      | MeanSquaredError \<Rightarrow> 2 | Linear \<Rightarrow> 3 | _ \<Rightarrow> 1)"

definition is_var :: "pyval \<Rightarrow> bool" where
  "is_var x = (case x of PVar v \<Rightarrow> True | _ \<Rightarrow> False)"

definition is_grad :: "pyval \<Rightarrow> bool" where
  "is_grad x = (case x of PNone \<Rightarrow> True | PVar v \<Rightarrow> True | _ \<Rightarrow> False)"

definition var_ok :: "heap \<Rightarrow> nat \<Rightarrow> bool" where
  "var_ok b v =
     (case creator (vars b ! v) of
        None \<Rightarrow> True
      | Some c \<Rightarrow> c < length (funs b) \<and> outputs (funs b ! c) = Some [v] \<and>
                 0 < generation (vars b ! v) \<and>
                 f_generation (funs b ! c) = Some (generation (vars b ! v) - 1))"

definition fun_ok :: "heap \<Rightarrow> nat \<Rightarrow> bool" where
  "fun_ok b f =
     ((case inputs (funs b ! f) of
         None \<Rightarrow> True
       | Some ins \<Rightarrow>
           length ins = arity (kind (funs b ! f)) \<and>
           list_all (\<lambda>x. x < length (vars b) \<and>
                          (case f_generation (funs b ! f) of
                             None \<Rightarrow> True
                           | Some g \<Rightarrow> generation (vars b ! x) \<le> g)) ins) \<and>
      (case outputs (funs b ! f) of
         None \<Rightarrow> True
       | Some outs \<Rightarrow>
           list_all (\<lambda>y. y < length (vars b) \<and> creator (vars b ! y) = Some f) outs))"

definition graph_ok :: "heap \<Rightarrow> bool" where
  "graph_ok b \<longleftrightarrow>
     list_all (var_ok b) [0..<length (vars b)] \<and> list_all (fun_ok b) [0..<length (funs b)]"

definition fn_ready :: "heap \<Rightarrow> nat option \<Rightarrow> bool" where
  "fn_ready b x =
     (case x of
        None \<Rightarrow> False
      | Some f \<Rightarrow> f < length (funs b) \<and> f_generation (funs b ! f) \<noteq> None \<and>
                 (case outputs (funs b ! f) of
                    Some [y] \<Rightarrow> y < length (vars b) \<and> creator (vars b ! y) = Some f
                  | _ \<Rightarrow> False))"

definition wl_ok :: "heap \<Rightarrow> nat \<Rightarrow> nat option set \<Rightarrow> worklist \<Rightarrow> bool" where
  "wl_ok b G P w \<longleftrightarrow>
     list_all (fn_ready b) (fst w) \<and> sorted (map (gen_key b) (fst w)) \<and> distinct (fst w) \<and>
     snd w = set (fst w) \<union> P \<and> set (fst w) \<inter> P = {} \<and>
     (\<forall>x \<in> set (fst w). gen_key b x \<le> G)"

section \<open>Supporting lemmas\<close>

lemma ext_refl [simp]: "ext h h"
  by (simp add: ext_def)

lemma take_take_prefix:
  assumes "length xs \<le> length ys" and "take (length xs) ys = xs" and "take (length ys) zs = ys"
  shows "take (length xs) zs = xs"
proof -
  have "take (length xs) (take (length ys) zs) = take (length xs) zs"
    using assms(1) by (simp add: min_def)
  then show ?thesis
    by (simp only: assms(2,3))
qed

lemma ext_trans: "ext h1 h2 \<Longrightarrow> ext h2 h3 \<Longrightarrow> ext h1 h3"
  unfolding ext_def by (meson take_take_prefix order_trans)

lemma take_nth_eq: "take n ys = xs \<Longrightarrow> i < length xs \<Longrightarrow> ys ! i = xs ! i"
  by (metis length_take min_less_iff_conj nth_take)

lemma ext_var: "ext h h' \<Longrightarrow> v < length (vars h) \<Longrightarrow> vars h' ! v = vars h ! v"
  unfolding ext_def by (auto intro: take_nth_eq)

lemma ext_fun: "ext h h' \<Longrightarrow> f < length (funs h) \<Longrightarrow> funs h' ! f = funs h ! f"
  unfolding ext_def by (auto intro: take_nth_eq)

lemma fext_refl [simp]: "fext f h h" by (simp add: fext_def)

lemma fext_trans: "fext f h1 h2 \<Longrightarrow> fext f h2 h3 \<Longrightarrow> fext f h1 h3"
  unfolding fext_def by (metis take_take_prefix order_trans)

lemma fext_var: "fext f h h' \<Longrightarrow> v < length (vars h) \<Longrightarrow> vars h' ! v = vars h ! v"
  unfolding fext_def by (auto intro: take_nth_eq)

lemma extendsD: "extends m \<Longrightarrow> m h = Inr (r, h') \<Longrightarrow> ext h h'"
  by (auto simp: extends_def)

lemma fextendsD: "fextends f m \<Longrightarrow> m h = Inr (r, h') \<Longrightarrow> fext f h h'"
  by (auto simp: fextends_def)

lemma bnd_Inr:
  "bnd m f h = Inr (r, h') \<longleftrightarrow> (\<exists>x h1. m h = Inr (x, h1) \<and> f x h1 = Inr (r, h'))"
  by (auto simp: bnd_def split: sum.splits)

lemma extends_ret [simp, intro!]: "extends (ret x)"
  by (simp add: extends_def ret_def)

lemma extends_raise [simp, intro!]: "extends (raise e)"
  by (simp add: extends_def raise_def)

lemma extends_lift [simp, intro!]: "extends (lift r)"
  by (auto simp: extends_def lift_def split: sum.splits)

lemma extends_bnd [intro!]: "extends m \<Longrightarrow> (\<And>x. extends (f x)) \<Longrightarrow> extends (bnd m f)"
  unfolding extends_def bnd_Inr by (blast intro: ext_trans)

lemma fextends_ret [simp, intro!]: "fextends f (ret x)"
  by (simp add: fextends_def ret_def)

lemma fextends_raise [simp, intro!]: "fextends f (raise e)"
  by (simp add: fextends_def raise_def)

lemma fextends_bnd [intro!]: "fextends g m \<Longrightarrow> (\<And>x. fextends g (f x)) \<Longrightarrow> fextends g (bnd m f)"
  unfolding fextends_def bnd_Inr by (blast intro: fext_trans)

lemma fextends_new_variable [simp, intro!]: "fextends f (new_variable d)"
  by (auto simp: fextends_def new_variable_def fext_def)

lemma fextends_Variable_init [simp, intro!]: "fextends f (Variable_init d)"
  by (cases d) (auto simp: Variable_init_def)

lemma fextends_as_variable [simp, intro!]: "fextends f (as_variable x)"
  by (cases x) (auto simp: as_variable_def)

lemma fextends_mapM [intro!]: "(\<And>x. fextends g (f x)) \<Longrightarrow> fextends g (mapM f xs)"
  by (induction xs) auto

lemma fextends_run_forward [simp, intro!]: "fextends f (run_forward f ins)"
  by (auto simp: fextends_def run_forward_def fext_def split: sum.splits)

lemma fextends_set_generation [simp, intro!]: "fextends f (set_generation f ins)"
  by (auto simp: fextends_def set_generation_def fext_def split: if_splits)

lemma fextends_set_inputs_outputs [simp, intro!]: "fextends f (set_inputs_outputs f ins outs)"
  by (auto simp: fextends_def set_inputs_outputs_def fext_def)

lemma record_graph_frame:
  assumes "record_graph f ins out h = Inr (u, h')"
  shows "enable_backprop h' = enable_backprop h \<and> length (funs h') = length (funs h) \<and>
         (\<forall>g. g \<noteq> f \<longrightarrow> funs h' ! g = funs h ! g) \<and>
         length (vars h') = length (vars h) \<and> (\<forall>v. v \<noteq> out \<longrightarrow> vars h' ! v = vars h ! v)"
  using assms
  by (auto simp: record_graph_def bnd_Inr set_generation_def set_creator_def
      set_inputs_outputs_def split: if_splits option.splits)

lemma Variable_init_arr:
  "Variable_init (as_array (PArr y)) h = Inr (out, h') \<longleftrightarrow>
   out = length (vars h) \<and>
   h' = h\<lparr>vars := vars h @ [\<lparr>data = Some y, grad = PNone, creator = None, generation = 0\<rparr>]\<rparr>"
  by (auto simp: as_array_def Variable_init_def new_variable_def)

lemma Function_call_steps:
  "Function_call f args h = Inr (r, h') \<longleftrightarrow>
   (\<exists>ins h1 y h2 h3 u.
      mapM as_variable args h = Inr (ins, h1) \<and> run_forward f ins h1 = Inr (y, h2) \<and>
      Variable_init (as_array (PArr y)) h2 = Inr (r, h3) \<and>
      record_graph f ins r h3 = Inr (u, h'))"
  unfolding Function_call_def bnd_Inr by (auto simp: ret_def)

lemma Function_call_frame:
  assumes "Function_call f args h = Inr (r, h')"
  shows "fext f h h'"
proof -
  from assms obtain ins h1 y h2 h3 u where
    1: "mapM as_variable args h = Inr (ins, h1)" and
    2: "run_forward f ins h1 = Inr (y, h2)" and
    3: "Variable_init (as_array (PArr y)) h2 = Inr (r, h3)" and
    4: "record_graph f ins r h3 = Inr (u, h')"
    unfolding Function_call_steps by blast
  have a: "fext f h h1"
    using 1 fextendsD[OF fextends_mapM[of f as_variable]] by auto
  have b: "fext f h1 h2" using 2 fextendsD[OF fextends_run_forward] by blast
  have r: "r = length (vars h2)" and h3: "vars h3 = vars h2 @ [\<lparr>data = Some y, grad = PNone, creator = None, generation = 0\<rparr>]"
    and h3f: "funs h3 = funs h2" "enable_backprop h3 = enable_backprop h2"
    using 3 unfolding Variable_init_arr by auto
  note fr = record_graph_frame[OF 4]
  have "take (length (vars h2)) (vars h') = vars h2"
  proof (rule nth_equalityI)
    show "length (take (length (vars h2)) (vars h')) = length (vars h2)"
      using fr h3 by simp
  next
    fix i assume "i < length (take (length (vars h2)) (vars h'))"
    then have i: "i < length (vars h2)" by simp
    then have "vars h' ! i = vars h3 ! i" using fr r by simp
    also have "\<dots> = vars h2 ! i" using i h3 by (simp add: nth_append)
    finally show "take (length (vars h2)) (vars h') ! i = vars h2 ! i" using i by simp
  qed
  then have c: "fext f h2 h'"
    using fr h3 h3f by (simp add: fext_def)
  from a b c show ?thesis by (blast intro: fext_trans)
qed

lemma call_steps:
  "call k args h = Inr (r, h') \<longleftrightarrow>
   Function_call (length (funs h)) args (h\<lparr>funs := funs h @ [fresh_function k]\<rparr>) = Inr (r, h')"
  by (simp add: call_def bnd_Inr new_function_def)

lemma extends_call [simp, intro!]: "extends (call k args)"
  unfolding extends_def
proof (intro allI impI)
  fix h r h' assume "call k args h = Inr (r, h')"
  then have fe: "fext (length (funs h)) (h\<lparr>funs := funs h @ [fresh_function k]\<rparr>) h'"
    unfolding call_steps by (rule Function_call_frame)
  have "take (length (funs h)) (funs h') = funs h"
  proof (rule nth_equalityI)
    show "length (take (length (funs h)) (funs h')) = length (funs h)"
      using fe by (simp add: fext_def)
  next
    fix i assume "i < length (take (length (funs h)) (funs h'))"
    then have i: "i < length (funs h)" by simp
    then show "take (length (funs h)) (funs h') ! i = funs h ! i"
      using fe by (simp add: fext_def nth_append)
  qed
  then show "ext h h'" using fe by (simp add: fext_def ext_def)
qed

lemma extends_if [intro!]: "extends a \<Longrightarrow> extends b \<Longrightarrow> extends (if c then a else b)"
  by simp

lemma extends_new_variable [simp, intro!]: "extends (new_variable d)"
  by (auto simp: extends_def new_variable_def ext_def)

lemma extends_Variable_init [simp, intro!]: "extends (Variable_init d)"
  by (cases d) (auto simp: Variable_init_def)

lemma extends_as_variable [simp, intro!]: "extends (as_variable x)"
  by (cases x) (auto simp: as_variable_def)

lemma extends_shape_of [simp, intro!]: "extends (shape_of x)"
  by (auto simp: extends_def shape_of_def split: pyval.splits option.splits)

lemma extends_saved [simp, intro!]: "extends (saved a f)"
  by (auto simp: extends_def saved_def split: option.splits)

lemma extends_inputs1 [simp, intro!]: "extends (inputs1 f)"
  by (auto simp: extends_def inputs1_def split: option.splits list.splits)

lemma extends_inputs2 [simp, intro!]: "extends (inputs2 f)"
  by (auto simp: extends_def inputs2_def split: option.splits list.splits)

lemma extends_inputs3 [simp, intro!]: "extends (inputs3 f)"
  by (auto simp: extends_def inputs3_def split: option.splits list.splits)

lemma extends_output0 [simp, intro!]: "extends (output0 f)"
  by (auto simp: extends_def output0_def split: option.splits list.splits)

lemma extends_len_of [simp, intro!]: "extends (len_of v)"
  by (auto simp: extends_def len_of_def split: option.splits list.splits)

lemma extends_funcs [simp, intro!]:
  "extends (add x0 x1)" "extends (sub x0 x1)" "extends (rsub x0 x1)" "extends (mul x0 x1)"
  "extends (div_f x0 x1)" "extends (rdiv x0 x1)" "extends (neg x)" "extends (pow x a)"
  "extends (reshape x s)" "extends (transpose x axes)" "extends (broadcast_to x s)"
  "extends (sum_to x s)" "extends (matmul x W)" "extends (sum_f x axis k)"
  by (auto simp: add_def sub_def rsub_def mul_def div_f_def rdiv_def neg_def pow_def reshape_def
      transpose_def broadcast_to_def sum_to_def matmul_def sum_f_def)

lemma extends_py_binop [simp, intro!]: "extends (py_binop op a b)"
  by (auto simp: py_binop_def split: pyval.splits binop.splits)

lemma extends_py_neg [simp, intro!]: "extends (py_neg a)"
  by (auto simp: py_neg_def split: pyval.splits)

lemma extends_reshape_sum_backward [simp, intro!]: "extends (reshape_sum_backward dy s axis k)"
  by (auto simp: reshape_sum_backward_def Let_def split: pyval.splits option.splits)

lemma extends_rules [simp, intro!]:
  "extends (Add_backward f dy)" "extends (Sub_backward f dy)" "extends (Mul_backward f dy)"
  "extends (Div_backward f dy)" "extends (Neg_backward f dy)" "extends (Pow_backward f a dy)"
  "extends (Reshape_backward f dy)" "extends (Transpose_backward f axes dy)"
  "extends (BroadcastTo_backward f dy)" "extends (SumTo_backward f dy)"
  "extends (Sum_backward f axis k dy)" "extends (MatMul_backward f dy)"
  by (auto simp: Add_backward_def Sub_backward_def Mul_backward_def Div_backward_def
      Neg_backward_def Pow_backward_def Reshape_backward_def Transpose_backward_def
      BroadcastTo_backward_def SumTo_backward_def Sum_backward_def MatMul_backward_def
      split: option.splits)

lemma extends_Linear_bias:
  "extends (\<lambda>h. if data (vars h ! b) = None then Inr (PNone, h)
              else bnd (shape_of (PVar b)) (\<lambda>s. bnd (sum_to dy s) (\<lambda>r. ret (PVar r))) h)"
proof -
  have "extends (bnd (shape_of (PVar b)) (\<lambda>s. bnd (sum_to dy s) (\<lambda>r. ret (PVar r))))"
    by (intro extends_bnd) auto
  then show ?thesis
    unfolding extends_def by (auto split: if_splits)
qed

lemma extends_rules2 [simp, intro!]:
  "extends (Linear_backward f dy)" "extends (ReLU_backward f dy)"
  "extends (Sigmoid_backward f dy)" "extends (Softmax_backward f axis dy)"
  "extends (Tanh_backward f dy)" "extends (MeanSquaredError_backward f dy)"
  by (auto simp: Linear_backward_def ReLU_backward_def Sigmoid_backward_def
      Softmax_backward_def Tanh_backward_def MeanSquaredError_backward_def
      intro!: extends_Linear_bias)

lemma extends_backward_rule [simp, intro!]: "extends (backward_rule f dys)"
  unfolding extends_def
proof (intro allI impI)
  fix h r h' assume a: "backward_rule f dys h = Inr (r, h')"
  then obtain dy where dys: "dys = [dy]"
    by (auto simp: backward_rule_def split: list.splits)
  show "ext h h'"
    using a unfolding dys backward_rule_def
    by (cases "kind (funs h ! f)") (auto dest: extendsD[rotated])
qed

lemma vext_refl [simp]: "vext h h"
  by (simp add: vext_def)

lemma vext_trans: "vext h1 h2 \<Longrightarrow> vext h2 h3 \<Longrightarrow> vext h1 h3"
  unfolding vext_def by (metis take_take_prefix order_trans)

lemma vextendsD: "vextends m \<Longrightarrow> m h = Inr (r, h') \<Longrightarrow> vext h h'"
  by (auto simp: vextends_def)

lemma vextends_ret [simp, intro!]: "vextends (ret x)"
  by (simp add: vextends_def ret_def)

lemma vextends_raise [simp, intro!]: "vextends (raise e)"
  by (simp add: vextends_def raise_def)

lemma vextends_bnd [intro!]: "vextends m \<Longrightarrow> (\<And>x. vextends (f x)) \<Longrightarrow> vextends (bnd m f)"
  unfolding vextends_def bnd_Inr by (blast intro: vext_trans)

lemma vextends_new_variable [simp, intro!]: "vextends (new_variable d)"
  by (auto simp: vextends_def new_variable_def vext_def)

lemma vextends_Variable_init [simp, intro!]: "vextends (Variable_init d)"
  by (cases d) (auto simp: Variable_init_def)

lemma vextends_as_variable [simp, intro!]: "vextends (as_variable x)"
  by (cases x) (auto simp: as_variable_def)

lemma vextends_mapM [intro!]: "(\<And>x. vextends (f x)) \<Longrightarrow> vextends (mapM f xs)"
  by (induction xs) auto

lemma mapM_as_variable_vext: "mapM as_variable args h = Inr (ins, h1) \<Longrightarrow> vext h h1"
  using vextendsD[OF vextends_mapM[of as_variable]] by auto

lemma forward_static:
  "forward k f xs = Inr (y, f') \<Longrightarrow>
   kind f' = kind f \<and> inputs f' = inputs f \<and> outputs f' = outputs f \<and>
   f_generation f' = f_generation f"
  unfolding forward_def
  by (cases k) (auto split: list.splits option.splits sum.splits)

lemma mapM_as_variable_valid:
  "mapM as_variable args h = Inr (ins, h1) \<Longrightarrow>
   \<forall>v. PVar v \<in> set args \<longrightarrow> v < length (vars h) \<Longrightarrow>
   (\<forall>x \<in> set ins. x < length (vars h1)) \<and> length ins = length args"
proof (induction args arbitrary: h ins h1)
  case Nil
  then show ?case by (simp add: ret_def)
next
  case (Cons a args)
  from Cons.prems(1) obtain x h2 xs where
    1: "as_variable a h = Inr (x, h2)" and 2: "mapM as_variable args h2 = Inr (xs, h1)"
    and ins: "ins = x # xs"
    by (auto simp: bnd_Inr ret_def)
  have e: "ext h h2" using 1 by (rule extendsD[OF extends_as_variable])
  have e2: "vext h2 h1" using 2 by (rule mapM_as_variable_vext)
  have x: "x < length (vars h2)" using 1 Cons.prems(2)
    by (cases a) (auto simp: as_variable_def Variable_init_def new_variable_def ret_def raise_def)
  have "\<forall>v. PVar v \<in> set args \<longrightarrow> v < length (vars h2)"
    using Cons.prems(2) e by (auto simp: ext_def)
  from Cons.IH[OF 2 this] x e2 show ?case unfolding ins by (auto simp: vext_def)
qed

lemma mapM_as_variable_vars:
  "mapM as_variable (map PVar xs) h = Inr (xs, h)"
  by (induction xs) (auto simp: ret_def bnd_def as_variable_def)

text \<open>What a call leaves behind.\<close>

lemma call_result:
  assumes c: "call k args h = Inr (y, h')"
    and v: "\<forall>v. PVar v \<in> set args \<longrightarrow> v < length (vars h)"
  shows "\<exists>ins h1 yd f'.
     mapM as_variable args (h\<lparr>funs := funs h @ [fresh_function k]\<rparr>) = Inr (ins, h1) \<and>
     funs h1 = funs h @ [fresh_function k] \<and>
     forward k (fresh_function k) (map (\<lambda>x. data (vars h1 ! x)) ins) = Inr (yd, f') \<and>
     y = length (vars h1) \<and> (\<forall>x \<in> set ins. x < length (vars h1)) \<and>
     (if enable_backprop h
      then ins \<noteq> [] \<and>
           vars h' = vars h1 @ [\<lparr>data = Some yd, grad = PNone, creator = Some (length (funs h)),
              generation = Max (set (map (\<lambda>x. generation (vars h1 ! x)) ins)) + 1\<rparr>] \<and>
           funs h' = funs h @ [f'\<lparr>f_generation :=
                                     Some (Max (set (map (\<lambda>x. generation (vars h1 ! x)) ins))),
                                   inputs := Some ins, outputs := Some [y]\<rparr>]
      else vars h' = vars h1 @ [\<lparr>data = Some yd, grad = PNone, creator = None, generation = 0\<rparr>] \<and>
           funs h' = funs h @ [f'])"
proof -
  let ?h0 = "h\<lparr>funs := funs h @ [fresh_function k]\<rparr>"
  let ?f = "length (funs h)"
  from c obtain ins h1 yd h2 h3 u where
    1: "mapM as_variable args ?h0 = Inr (ins, h1)" and
    2: "run_forward ?f ins h1 = Inr (yd, h2)" and
    3: "Variable_init (as_array (PArr yd)) h2 = Inr (y, h3)" and
    4: "record_graph ?f ins y h3 = Inr (u, h')"
    unfolding call_steps Function_call_steps by blast
  have v1: "vext ?h0 h1" using 1 by (rule mapM_as_variable_vext)
  then have f1: "funs h1 = funs h @ [fresh_function k]"
    and eb1: "enable_backprop h1 = enable_backprop h"
    by (auto simp: vext_def)
  have val: "\<forall>x \<in> set ins. x < length (vars h1)"
    using mapM_as_variable_valid[OF 1] v by simp
  from 2 obtain f' where
    fw: "forward k (fresh_function k) (map (\<lambda>x. data (vars h1 ! x)) ins) = Inr (yd, f')"
    and h2: "h2 = h1\<lparr>funs := funs h @ [f']\<rparr>"
    by (auto simp: run_forward_def f1 fresh_function_def split: sum.splits)
  from 3 have y: "y = length (vars h1)"
    and h3: "h3 = h2\<lparr>vars := vars h1 @ [\<lparr>data = Some yd, grad = PNone, creator = None, generation = 0\<rparr>]\<rparr>"
    unfolding Variable_init_arr h2 by auto
  have gen: "map (\<lambda>x. generation ((vars h1 @ [z]) ! x)) ins = map (\<lambda>x. generation (vars h1 ! x)) ins" for z
    using val by (auto simp: nth_append)
  have gen2: "(\<lambda>x. generation ((vars h1 @ [z]) ! x)) ` set ins = (\<lambda>x. generation (vars h1 ! x)) ` set ins" for z
    using val by (intro image_cong) (auto simp: nth_append)
  have fk: "f_generation f' = None"
    using forward_static[OF fw] by (simp add: fresh_function_def)
  show ?thesis
  proof (cases "enable_backprop h")
    case False
    then have "h' = h3" using 4 eb1 by (simp add: record_graph_def h3 h2)
    then show ?thesis using 1 f1 fw y val False by (auto simp: h3 h2)
  next
    case True
    then have eb3: "enable_backprop h3" using eb1 by (simp add: h3 h2)
    from 4 eb3 have ne: "ins \<noteq> []"
      by (auto simp: record_graph_def bnd_Inr set_generation_def split: if_splits)
    from 4 eb3 ne have
      "vars h' = vars h1 @ [\<lparr>data = Some yd, grad = PNone, creator = Some (length (funs h)),
              generation = Max (set (map (\<lambda>x. generation (vars h1 ! x)) ins)) + 1\<rparr>] \<and>
       funs h' = funs h @ [f'\<lparr>f_generation :=
                                     Some (Max (set (map (\<lambda>x. generation (vars h1 ! x)) ins))),
                                   inputs := Some ins, outputs := Some [y]\<rparr>]"
      by (auto simp: record_graph_def bnd_Inr set_generation_def set_creator_def
          set_inputs_outputs_def h3 h2 y gen gen2)
    then show ?thesis using 1 f1 fw y val True ne by auto
  qed
qed

lemma np_neg_neg [simp]: "np_neg (np_neg a) = a"
  by (simp add: np_neg_def comp_def)

lemma call_Neg:
  assumes "x < length (vars h)" "data (vars h ! x) = Some a"
  shows "\<exists>h'. call Neg [PVar x] h = Inr (length (vars h), h') \<and>
              data (vars h' ! length (vars h)) = Some (np_neg a) \<and>
              length (vars h') = Suc (length (vars h)) \<and> ext h h'"
proof -
  have "\<exists>h'. call Neg [PVar x] h = Inr (length (vars h), h') \<and>
              data (vars h' ! length (vars h)) = Some (np_neg a) \<and>
              length (vars h') = Suc (length (vars h))"
    using assms
    by (simp add: call_def Function_call_def bnd_def new_function_def as_variable_def ret_def
        run_forward_def forward_def fresh_function_def Variable_init_def as_array_def
        new_variable_def record_graph_def set_generation_def set_creator_def
        set_inputs_outputs_def)
  then show ?thesis using extendsD[OF extends_call] by blast
qed

lemma gsame_refl [simp]: "gsame h h"
  unfolding gsame_def by simp

lemma gsame_trans:
  assumes "gsame h1 h2" "gsame h2 h3"
  shows "gsame h1 h3"
proof -
  have "take (length (funs h1)) (funs h3) = funs h1"
    using assms unfolding gsame_def by (metis take_take_prefix)
  then show ?thesis using assms unfolding gsame_def by auto
qed

lemma ext_gsame: "ext h h' \<Longrightarrow> gsame h h'"
  unfolding gsame_def by (auto simp: ext_var) (auto simp: ext_def)

lemma gextendsD: "gextends m \<Longrightarrow> m h = Inr (r, h') \<Longrightarrow> gsame h h'"
  by (auto simp: gextends_def)

lemma extends_gextends: "extends m \<Longrightarrow> gextends m"
  by (auto simp: extends_def gextends_def ext_gsame)

lemma gextends_ret [simp, intro!]: "gextends (ret x)"
  by (simp add: extends_gextends)

lemma gextends_bnd [intro!]: "gextends m \<Longrightarrow> (\<And>x. gextends (f x)) \<Longrightarrow> gextends (bnd m f)"
  unfolding gextends_def bnd_Inr by (blast intro: gsame_trans)

lemma gextends_raise [simp, intro!]: "gextends (raise e)"
  by (simp add: extends_gextends)

lemma gextends_prims [simp, intro!]:
  "gextends (py_binop op a b)" "gextends (shape_of x)" "gextends (Variable_init d)"
  "gextends (saved attr f)" "gextends (backward_rule f dys)"
  by (simp_all add: extends_gextends)

lemma gextends_if [intro!]: "gextends a \<Longrightarrow> gextends b \<Longrightarrow> gextends (if c then a else b)"
  by simp

lemma gextends_set_grad [simp, intro!]: "gextends (set_grad v g)"
  unfolding gextends_def gsame_def
proof (intro allI impI conjI)
  fix h r h' va
  assume a: "set_grad v g h = Inr (r, h')" and va: "va < length (vars h)"
  show "(vars h' ! va)\<lparr>grad := PNone\<rparr> = (vars h ! va)\<lparr>grad := PNone\<rparr>"
    using a va by (cases "v = va") (auto simp: set_grad_def)
qed (auto simp: set_grad_def)

lemma gextends_add_func [simp, intro!]: "gextends (add_func f w)"
  unfolding gextends_def add_func_def
  by (auto split: prod.splits if_splits)

lemma gextends_accumulate_grad [simp, intro!]: "gextends (accumulate_grad x dx)"
  unfolding gextends_def
proof (intro allI impI)
  fix h r h'
  assume a: "accumulate_grad x dx h = Inr (r, h')"
  have "gextends (bnd (py_binop OAdd (grad (vars h ! x)) dx) (\<lambda>g. set_grad x g))"
    by (intro gextends_bnd) auto
  then show "gsame h h'" using a gextendsD[OF gextends_set_grad]
    by (auto simp: accumulate_grad_def split: if_splits dest: gextendsD)
qed

lemma gextends_add_creator [simp, intro!]: "gextends (add_creator x w)"
  unfolding gextends_def add_creator_def using gextendsD[OF gextends_add_func]
  by (auto split: option.splits)

lemma gextends_accumulate [simp, intro!]: "gextends (accumulate xs w)"
proof (induction xs arbitrary: w)
  case Nil
  then show ?case by simp
next
  case (Cons p xs)
  obtain x dx where p: "p = (x, dx)" by (cases p)
  show ?case unfolding p accumulate.simps
    by (intro gextends_bnd gextends_accumulate_grad gextends_add_creator Cons.IH)
qed

lemma gextends_clear_outputs [simp, intro!]: "gextends (clear_outputs ys)"
  by (induction ys) auto

lemma gextends_loop_body [simp, intro!]: "gextends (loop_body retain w)"
proof -
  have 1: "gextends (\<lambda>h. Inr (map (\<lambda>y. grad (vars h ! y)) outs, h))" for outs
    by (auto simp: gextends_def)
  show ?thesis
    unfolding loop_body_def
    by (cases "last (fst w)") (auto intro!: 1)
qed

lemma backward_loop_gsame:
  "backward_loop n retain w tr h = Some (Inr (h', tr')) \<Longrightarrow> gsame h h'"
proof (induction n arbitrary: w tr h)
  case 0
  then show ?case by (auto split: if_splits)
next
  case (Suc n)
  show ?case
  proof (cases "fst w = []")
    case True
    with Suc.prems show ?thesis by simp
  next
    case False
    with Suc.prems obtain f w' h1 where
      1: "loop_body retain w h = Inr ((f, w'), h1)" and
      2: "backward_loop n retain w' ((Some f, butlast (fst w)) # tr) h1 = Some (Inr (h', tr'))"
      by (auto split: sum.splits)
    from gextendsD[OF gextends_loop_body 1] Suc.IH[OF 2] show ?thesis
      by (rule gsame_trans)
  qed
qed

lemma gextends_seed_grad [simp, intro!]: "gextends (seed_grad v)"
proof -
  have "gextends (bnd (shape_of (PVar v)) (\<lambda>s.
          bnd (Variable_init (PArr (np_ones s))) (\<lambda>g. set_grad v (PVar g))))"
    by (intro gextends_bnd) auto
  then show ?thesis
    unfolding gextends_def seed_grad_def by (auto split: if_splits)
qed

lemma backward_trace_gsame:
  assumes "backward_trace v retain n h = Some (Inr (h', tr))"
  shows "gsame h h'"
proof -
  from assms obtain u h1 w h2 where
    1: "seed_grad v h = Inr (u, h1)" and
    2: "add_func (creator (vars h1 ! v)) ([], {}) h1 = Inr (w, h2)" and
    3: "backward_loop n retain w [] h2 = Some (Inr (h', tr))"
    unfolding backward_trace_def by (auto simp: bnd_Inr split: sum.splits)
  from gextendsD[OF gextends_seed_grad 1] gextendsD[OF gextends_add_func 2]
    backward_loop_gsame[OF 3]
  show ?thesis by (blast intro: gsame_trans)
qed

lemma backward_gsame:
  assumes "backward v retain n h = Some (Inr h')"
  shows "gsame h h'"
  using assms backward_trace_gsame unfolding backward_def
  by (auto split: option.splits sum.splits)

lemma gsame_static:
  assumes "gsame h h'" "v < length (vars h)"
  shows "generation (vars h' ! v) = generation (vars h ! v) \<and>
         creator (vars h' ! v) = creator (vars h ! v) \<and> data (vars h' ! v) = data (vars h ! v)"
proof -
  from assms have e: "(vars h' ! v)\<lparr>grad := PNone\<rparr> = (vars h ! v)\<lparr>grad := PNone\<rparr>"
    by (simp add: gsame_def)
  have "generation ((vars h' ! v)\<lparr>grad := PNone\<rparr>) = generation ((vars h ! v)\<lparr>grad := PNone\<rparr>)"
    "creator ((vars h' ! v)\<lparr>grad := PNone\<rparr>) = creator ((vars h ! v)\<lparr>grad := PNone\<rparr>)"
    "data ((vars h' ! v)\<lparr>grad := PNone\<rparr>) = data ((vars h ! v)\<lparr>grad := PNone\<rparr>)"
    by (simp_all only: e)
  then show ?thesis by simp
qed

lemma gsame_fun: "gsame h h' \<Longrightarrow> f < length (funs h) \<Longrightarrow> funs h' ! f = funs h ! f"
  unfolding gsame_def by (auto intro: take_nth_eq)

lemma call_single:
  assumes c: "call k [PVar x] h = Inr (y, h')" and x: "x < length (vars h)"
    and eb: "enable_backprop h"
  shows "\<exists>yd f'. forward k (fresh_function k) [data (vars h ! x)] = Inr (yd, f') \<and>
     y = length (vars h) \<and>
     vars h' = vars h @ [\<lparr>data = Some yd, grad = PNone, creator = Some (length (funs h)),
                          generation = generation (vars h ! x) + 1\<rparr>] \<and>
     funs h' = funs h @ [f'\<lparr>f_generation := Some (generation (vars h ! x)),
                             inputs := Some [x], outputs := Some [y]\<rparr>]"
proof -
  have v: "\<forall>v. PVar v \<in> set [PVar x] \<longrightarrow> v < length (vars h)" using x by simp
  have m: "mapM as_variable [PVar x] (h\<lparr>funs := funs h @ [fresh_function k]\<rparr>) =
           Inr ([x], h\<lparr>funs := funs h @ [fresh_function k]\<rparr>)"
    by (simp add: as_variable_def ret_def bnd_def)
  from call_result[OF c v] show ?thesis
    unfolding m using eb by auto
qed

lemma forward_BroadcastTo:
  "forward (BroadcastTo s) f [Some a] = Inr (yd, f') \<Longrightarrow> f' = f\<lparr>x_shape := Some (shape a)\<rparr>"
  by (auto simp: forward_def split: sum.splits)

lemma forward_SumTo:
  "forward (SumTo s) f [Some a] = Inr (yd, f') \<Longrightarrow> f' = f\<lparr>x_shape := Some (shape a)\<rparr>"
  by (auto simp: forward_def split: sum.splits)

lemma is_var_simps [simp]:
  "is_var (PVar v)" "\<not> is_var PNone" "\<not> is_var (PFloat r)" "\<not> is_var (PNpScalar r)"
  "\<not> is_var (PArr a)"
  by (simp_all add: is_var_def)

lemma is_grad_simps [simp]:
  "is_grad (PVar v)" "is_grad PNone" "\<not> is_grad (PFloat r)" "\<not> is_grad (PNpScalar r)"
  "\<not> is_grad (PArr a)"
  by (simp_all add: is_grad_def)

lemma is_var_grad: "is_var x \<Longrightarrow> is_grad x \<and> x \<noteq> PNone"
  by (cases x) auto

lemma is_grad_cases: "is_grad x \<Longrightarrow> x = PNone \<or> is_var x"
  by (cases x) auto

lemma py_binop_result:
  assumes "py_binop op a b h = Inr (r, h')"
  shows "r \<noteq> PNone \<and> (is_grad a \<or> is_grad b \<longrightarrow> is_var r)"
proof (cases "is_var a \<or> is_var b")
  case True
  then show ?thesis using assms
    by (auto simp: py_binop_def bnd_Inr ret_def is_var_def split: pyval.splits)
next
  case False
  then have l: "lift (raw_binop op a b) h = Inr (r, h')"
    using assms by (auto simp: py_binop_def is_var_def split: pyval.splits)
  then have "r \<noteq> PNone"
    by (auto simp: lift_def raw_binop_def from_num_def split: sum.splits option.splits if_splits)
  moreover have "\<not> (is_grad a \<or> is_grad b)"
  proof
    assume "is_grad a \<or> is_grad b"
    then have "a = PNone \<or> b = PNone" using False is_grad_cases by blast
    then show False using l
      by (auto simp: lift_def raw_binop_def as_num_def split: sum.splits option.splits pyval.splits)
  qed
  ultimately show ?thesis by simp
qed

lemma py_neg_result:
  assumes "py_neg a h = Inr (r, h')"
  shows "r \<noteq> PNone \<and> (is_grad a \<longrightarrow> is_var r)"
  using assms
  by (cases a) (auto simp: py_neg_def bnd_Inr ret_def raise_def from_num_def split: if_splits)

lemma Add_backward_result:
  "Add_backward f dy h = Inr (dxs, h') \<Longrightarrow> length dxs = 2 \<and> (\<forall>dx \<in> set dxs. dx = dy \<or> is_var dx)"
  by (auto simp: Add_backward_def bnd_Inr ret_def split: if_splits prod.splits option.splits
      dest!: py_binop_result py_neg_result dest: is_var_grad)

lemma Sub_backward_result:
  "Sub_backward f dy h = Inr (dxs, h') \<Longrightarrow> length dxs = 2 \<and> (\<forall>dx \<in> set dxs. dx = dy \<or> dx \<noteq> PNone \<and> (is_grad dy \<longrightarrow> is_var dx))"
  by (auto simp: Sub_backward_def bnd_Inr ret_def split: if_splits prod.splits option.splits
      dest!: py_binop_result py_neg_result dest: is_var_grad)

lemma Mul_backward_result:
  "Mul_backward f dy h = Inr (dxs, h') \<Longrightarrow> length dxs = 2 \<and> (\<forall>dx \<in> set dxs. is_var dx)"
  by (auto simp: Mul_backward_def bnd_Inr ret_def split: if_splits prod.splits option.splits
      dest!: py_binop_result py_neg_result dest: is_var_grad)

lemma Div_backward_result:
  "Div_backward f dy h = Inr (dxs, h') \<Longrightarrow> length dxs = 2 \<and> (\<forall>dx \<in> set dxs. is_var dx)"
  by (auto simp: Div_backward_def bnd_Inr ret_def split: if_splits prod.splits option.splits
      dest!: py_binop_result py_neg_result dest: is_var_grad)

lemma Neg_backward_result:
  "Neg_backward f dy h = Inr (dxs, h') \<Longrightarrow> length dxs = 1 \<and> (\<forall>dx \<in> set dxs. dx \<noteq> PNone \<and> (is_grad dy \<longrightarrow> is_var dx))"
  by (auto simp: Neg_backward_def bnd_Inr ret_def split: if_splits prod.splits option.splits
      dest!: py_binop_result py_neg_result dest: is_var_grad)

lemma Pow_backward_result:
  "Pow_backward f a dy h = Inr (dxs, h') \<Longrightarrow> length dxs = 1 \<and> (\<forall>dx \<in> set dxs. is_var dx)"
  by (auto simp: Pow_backward_def bnd_Inr ret_def split: if_splits prod.splits option.splits
      dest!: py_binop_result py_neg_result dest: is_var_grad)

lemma Reshape_backward_result:
  "Reshape_backward f dy h = Inr (dxs, h') \<Longrightarrow> length dxs = 1 \<and> (\<forall>dx \<in> set dxs. is_var dx)"
  by (auto simp: Reshape_backward_def bnd_Inr ret_def split: if_splits prod.splits option.splits
      dest!: py_binop_result py_neg_result dest: is_var_grad)

lemma Transpose_backward_result:
  "Transpose_backward f axes dy h = Inr (dxs, h') \<Longrightarrow> length dxs = 1 \<and> (\<forall>dx \<in> set dxs. is_var dx)"
  by (auto simp: Transpose_backward_def bnd_Inr ret_def split: if_splits prod.splits option.splits
      dest!: py_binop_result py_neg_result dest: is_var_grad)

lemma BroadcastTo_backward_result:
  "BroadcastTo_backward f dy h = Inr (dxs, h') \<Longrightarrow> length dxs = 1 \<and> (\<forall>dx \<in> set dxs. is_var dx)"
  by (auto simp: BroadcastTo_backward_def bnd_Inr ret_def split: if_splits prod.splits option.splits
      dest!: py_binop_result py_neg_result dest: is_var_grad)

lemma SumTo_backward_result:
  "SumTo_backward f dy h = Inr (dxs, h') \<Longrightarrow> length dxs = 1 \<and> (\<forall>dx \<in> set dxs. is_var dx)"
  by (auto simp: SumTo_backward_def bnd_Inr ret_def split: if_splits prod.splits option.splits
      dest!: py_binop_result py_neg_result dest: is_var_grad)

lemma Sum_backward_result:
  "Sum_backward f axis k dy h = Inr (dxs, h') \<Longrightarrow> length dxs = 1 \<and> (\<forall>dx \<in> set dxs. is_var dx)"
  by (auto simp: Sum_backward_def bnd_Inr ret_def split: if_splits prod.splits option.splits
      dest!: py_binop_result py_neg_result dest: is_var_grad)

lemma MatMul_backward_result:
  "MatMul_backward f dy h = Inr (dxs, h') \<Longrightarrow> length dxs = 2 \<and> (\<forall>dx \<in> set dxs. is_var dx)"
  by (auto simp: MatMul_backward_def bnd_Inr ret_def split: if_splits prod.splits option.splits
      dest!: py_binop_result py_neg_result dest: is_var_grad)

lemma Linear_backward_result:
  assumes "Linear_backward f dy h = Inr (dxs, h')"
  shows "length dxs = 3 \<and> (\<forall>dx \<in> set dxs. is_grad dx) \<and>
         (\<forall>i < length dxs. dxs ! i = PNone \<longrightarrow>
            (\<exists>ins. inputs (funs h ! f) = Some ins \<and> i < length ins \<and>
                   data (vars h ! (ins ! i)) = None))"
proof -
  from assms obtain x W b where i: "inputs (funs h ! f) = Some [x, W, b]"
    by (auto simp: Linear_backward_def bnd_Inr inputs3_def split: option.splits list.splits)
  from assms obtain db h1 dx dW where
    st: "(if data (vars h ! b) = None then Inr (PNone, h)
          else bnd (shape_of (PVar b)) (\<lambda>s. bnd (sum_to dy s) (\<lambda>r. ret (PVar r))) h) =
         Inr (db, h1)" and
    dxs: "dxs = [PVar dx, PVar dW, db]"
    by (auto simp: Linear_backward_def bnd_Inr inputs3_def i ret_def)
  have db: "db = PNone \<and> data (vars h ! b) = None \<or> is_var db"
  proof (cases "data (vars h ! b) = None")
    case True
    then show ?thesis using st by simp
  next
    case False
    then show ?thesis using st by (auto simp: bnd_Inr ret_def)
  qed
  have "\<forall>i < length dxs. dxs ! i = PNone \<longrightarrow> i = 2 \<and> data (vars h ! b) = None"
    using db unfolding dxs by (auto simp: nth_Cons split: nat.splits)
  then show ?thesis using i db unfolding dxs by (auto dest: is_var_grad)
qed

lemma ReLU_backward_result:
  "ReLU_backward f dy h = Inr (dxs, h') \<Longrightarrow>
   length dxs = 1 \<and> (\<forall>dx \<in> set dxs. dx \<noteq> PNone \<and> (is_grad dy \<longrightarrow> is_var dx))"
  by (auto simp: ReLU_backward_def bnd_Inr ret_def dest!: py_binop_result)

lemma Sigmoid_backward_result:
  "Sigmoid_backward f dy h = Inr (dxs, h') \<Longrightarrow> length dxs = 1 \<and> (\<forall>dx \<in> set dxs. is_var dx)"
  by (auto simp: Sigmoid_backward_def bnd_Inr ret_def dest!: py_binop_result dest: is_var_grad)

lemma Softmax_backward_result:
  "Softmax_backward f axis dy h = Inr (dxs, h') \<Longrightarrow>
   length dxs = 1 \<and> (\<forall>dx \<in> set dxs. is_var dx)"
  by (auto simp: Softmax_backward_def bnd_Inr ret_def)

lemma Tanh_backward_result:
  "Tanh_backward f dy h = Inr (dxs, h') \<Longrightarrow> length dxs = 1 \<and> (\<forall>dx \<in> set dxs. is_var dx)"
  by (auto simp: Tanh_backward_def bnd_Inr ret_def dest!: py_binop_result dest: is_var_grad)

lemma MeanSquaredError_backward_result:
  "MeanSquaredError_backward f dy h = Inr (dxs, h') \<Longrightarrow>
   length dxs = 2 \<and> (\<forall>dx \<in> set dxs. is_var dx)"
  by (auto simp: MeanSquaredError_backward_def bnd_Inr ret_def split: prod.splits
      dest!: py_binop_result py_neg_result dest: is_var_grad)

text \<open>
  What a backward rule returns: one gradient for each input, each a Variable or the
  gradient it was given, except that \<open>Linear\<close> returns \<open>None\<close> for a bias without data.
\<close>

lemma backward_rule_result:
  assumes "backward_rule f dys h = Inr (dxs, h')"
  shows "\<exists>dy. dys = [dy] \<and> length dxs = arity (kind (funs h ! f)) \<and>
              (is_grad dy \<longrightarrow> (\<forall>dx \<in> set dxs. is_grad dx)) \<and>
              (dy \<noteq> PNone \<longrightarrow>
                 (\<forall>i < length dxs. dxs ! i = PNone \<longrightarrow>
                    (\<exists>ins. inputs (funs h ! f) = Some ins \<and> i < length ins \<and>
                           data (vars h ! (ins ! i)) = None)))"
proof -
  from assms obtain dy where dys: "dys = [dy]"
    by (auto simp: backward_rule_def split: list.splits)
  show ?thesis
  proof (cases "kind (funs h ! f) = Linear")
    case True
    then have "Linear_backward f dy h = Inr (dxs, h')"
      using assms unfolding dys backward_rule_def by simp
    from Linear_backward_result[OF this] True dys show ?thesis
      by (simp add: arity_def)
  next
    case False
    have "length dxs = arity (kind (funs h ! f)) \<and>
          (\<forall>dx \<in> set dxs. dx = dy \<or> dx \<noteq> PNone \<and> (is_grad dy \<longrightarrow> is_var dx))"
      using assms False unfolding dys backward_rule_def
      by (cases "kind (funs h ! f)")
        (auto simp: arity_def dest!: Add_backward_result Sub_backward_result Mul_backward_result
          Div_backward_result Neg_backward_result Pow_backward_result Reshape_backward_result
          Transpose_backward_result BroadcastTo_backward_result SumTo_backward_result
          Sum_backward_result MatMul_backward_result ReLU_backward_result
          Sigmoid_backward_result Softmax_backward_result Tanh_backward_result
          MeanSquaredError_backward_result is_var_grad)
    then have "length dxs = arity (kind (funs h ! f))"
      and "is_grad dy \<longrightarrow> (\<forall>dx \<in> set dxs. is_grad dx)"
      and "dy \<noteq> PNone \<longrightarrow> (\<forall>dx \<in> set dxs. dx \<noteq> PNone)"
      by (auto dest: is_var_grad)
    then show ?thesis using dys by (auto simp: in_set_conv_nth)
  qed
qed

lemma graph_ok_var:
  assumes "graph_ok b" "v < length (vars b)" "creator (vars b ! v) = Some c"
  shows "c < length (funs b) \<and> outputs (funs b ! c) = Some [v] \<and>
         0 < generation (vars b ! v) \<and>
         f_generation (funs b ! c) = Some (generation (vars b ! v) - 1)"
proof -
  from assms(1,2) have "var_ok b v" by (simp add: graph_ok_def list_all_iff)
  then show ?thesis using assms(3) by (simp add: var_ok_def)
qed

lemma graph_ok_inputs:
  assumes "graph_ok b" "f < length (funs b)" "inputs (funs b ! f) = Some ins"
  shows "length ins = arity (kind (funs b ! f)) \<and>
         (\<forall>x \<in> set ins. x < length (vars b) \<and>
            (\<forall>g. f_generation (funs b ! f) = Some g \<longrightarrow> generation (vars b ! x) \<le> g))"
proof -
  from assms(1,2) have "fun_ok b f" by (simp add: graph_ok_def list_all_iff)
  then show ?thesis using assms(3) by (auto simp: fun_ok_def list_all_iff split: option.splits)
qed

lemma graph_ok_fn_ready:
  assumes "graph_ok b" "v < length (vars b)" "creator (vars b ! v) = Some c"
  shows "fn_ready b (Some c) \<and> gen_key b (Some c) < generation (vars b ! v)"
  using graph_ok_var[OF assms] assms(2,3)
  by (auto simp: fn_ready_def gen_key_def)

lemma fn_ready_Some: "fn_ready b x \<Longrightarrow> \<exists>f. x = Some f \<and> f < length (funs b)"
  by (cases x) (auto simp: fn_ready_def)

lemma fn_ready_outputs:
  "fn_ready b (Some f) \<Longrightarrow>
   \<exists>y. outputs (funs b ! f) = Some [y] \<and> y < length (vars b) \<and> creator (vars b ! y) = Some f"
  by (auto simp: fn_ready_def split: option.splits list.splits)

lemma gen_key_gsame:
  assumes "gsame b h" "fn_ready b x"
  shows "gen_key h x = gen_key b x" "has_generation h x"
  using assms fn_ready_Some[OF assms(2)]
  by (auto simp: gen_key_def has_generation_def gsame_fun fn_ready_def)

lemma insort_key_cong_set:
  "(\<And>x. x \<in> set (a # ys) \<Longrightarrow> f x = g x) \<Longrightarrow> insort_key f a ys = insort_key g a ys"
  by (induction ys) auto

lemma sort_key_cong_set:
  "(\<And>x. x \<in> set xs \<Longrightarrow> f x = g x) \<Longrightarrow> sort_key f xs = sort_key g xs"
proof (induction xs)
  case Nil
  then show ?case by simp
next
  case (Cons a xs)
  have 1: "sort_key f xs = sort_key g xs" using Cons by simp
  have 2: "insort_key f a (sort_key g xs) = insort_key g a (sort_key g xs)"
    by (rule insort_key_cong_set) (use Cons.prems in auto)
  have "sort_key f (a # xs) = insort_key f a (sort_key f xs)" by (simp add: sort_key_def)
  also have "\<dots> = insort_key g a (sort_key g xs)" unfolding 1 2 ..
  also have "\<dots> = sort_key g (a # xs)" by (simp add: sort_key_def)
  finally show ?case .
qed

lemma add_func_wl:
  assumes g: "gsame b h" and w: "wl_ok b G P w" and r: "fn_ready b (Some c)"
    and k: "gen_key b (Some c) \<le> G" and p: "Some c \<notin> P"
    and a: "add_func (Some c) w h = Inr (w', h')"
  shows "h' = h \<and> wl_ok b G P w' \<and> snd w' = insert (Some c) (snd w) \<and>
         set (fst w') \<subseteq> insert (Some c) (set (fst w))"
proof (cases "Some c \<in> snd w")
  case True
  then show ?thesis using a w by (auto simp: add_func_def split: prod.splits)
next
  case False
  obtain funcs seen where wd: "w = (funcs, seen)" by (cases w)
  have all: "list_all (fn_ready b) (funcs @ [Some c])"
    using w r by (simp add: wl_ok_def wd)
  then have keys: "\<And>x. x \<in> set (funcs @ [Some c]) \<Longrightarrow> gen_key h x = gen_key b x"
    and has: "list_all (has_generation h) (funcs @ [Some c])"
    using gen_key_gsame[OF g] by (auto simp: list_all_iff)
  have s: "sort_key (gen_key h) (funcs @ [Some c]) = sort_key (gen_key b) (funcs @ [Some c])"
    by (rule sort_key_cong_set) (rule keys)
  from a False has have w': "w' = (sort_key (gen_key b) (funcs @ [Some c]), insert (Some c) seen)"
    and h': "h' = h"
    unfolding add_func_def wd s[symmetric] by (auto simp del: list_all_append)
  have nin: "Some c \<notin> set funcs" using False w by (auto simp: wl_ok_def wd)
  show ?thesis
    using w all nin k p unfolding w' h' wd wl_ok_def
    by (auto simp: list_all_iff sorted_sort_key)
qed

lemma set_grad_simps:
  "set_grad x g h = Inr (u, h') \<longleftrightarrow> h' = h\<lparr>vars := (vars h)[x := (vars h ! x)\<lparr>grad := g\<rparr>]\<rparr>"
  by (auto simp: set_grad_def)

text \<open>The inputs of a call, argument by argument.\<close>

lemma vext_var: "vext h h' \<Longrightarrow> v < length (vars h) \<Longrightarrow> vars h' ! v = vars h ! v"
  unfolding vext_def by (auto intro: take_nth_eq)

lemma as_variable_fresh:
  assumes "as_variable a h = Inr (x, h2)" "\<forall>v. a \<noteq> PVar v"
  shows "x = length (vars h) \<and>
         vars h2 = vars h @ [\<lparr>data = (case a of PArr d \<Rightarrow> Some d | _ \<Rightarrow> None), grad = PNone,
                               creator = None, generation = 0\<rparr>]"
  using assms
  by (cases a) (auto simp: as_variable_def Variable_init_def new_variable_def raise_def)

lemma mapM_as_variable_rel:
  "mapM as_variable args h = Inr (ins, h1) \<Longrightarrow>
   list_all2 (\<lambda>a x. case a of
                PVar v \<Rightarrow> x = v
              | _ \<Rightarrow> length (vars h) \<le> x \<and> x < length (vars h1) \<and>
                    vars h1 ! x = \<lparr>data = (case a of PArr d \<Rightarrow> Some d | _ \<Rightarrow> None),
                                   grad = PNone, creator = None, generation = 0\<rparr>) args ins"
proof (induction args arbitrary: h ins h1)
  case Nil
  then show ?case by (simp add: ret_def)
next
  case (Cons a args)
  from Cons.prems(1) obtain x h2 xs where
    1: "as_variable a h = Inr (x, h2)" and 2: "mapM as_variable args h2 = Inr (xs, h1)"
    and ins: "ins = x # xs"
    by (auto simp: bnd_Inr ret_def)
  have e: "vext h h2" using 1 by (rule vextendsD[OF vextends_as_variable])
  have e2: "vext h2 h1" using 2 by (rule mapM_as_variable_vext)
  have le: "length (vars h) \<le> length (vars h2)" "length (vars h2) \<le> length (vars h1)"
    using e e2 by (simp_all add: vext_def)
  have tl: "list_all2 (\<lambda>a x. case a of
                PVar v \<Rightarrow> x = v
              | _ \<Rightarrow> length (vars h) \<le> x \<and> x < length (vars h1) \<and>
                    vars h1 ! x = \<lparr>data = (case a of PArr d \<Rightarrow> Some d | _ \<Rightarrow> None),
                                   grad = PNone, creator = None, generation = 0\<rparr>) args xs"
    by (rule list_all2_mono[OF Cons.IH[OF 2]]) (use le in \<open>auto split: pyval.splits\<close>)
  have hd: "case a of
                PVar v \<Rightarrow> x = v
              | _ \<Rightarrow> length (vars h) \<le> x \<and> x < length (vars h1) \<and>
                    vars h1 ! x = \<lparr>data = (case a of PArr d \<Rightarrow> Some d | _ \<Rightarrow> None),
                                   grad = PNone, creator = None, generation = 0\<rparr>"
  proof (cases "\<exists>v. a = PVar v")
    case True
    then show ?thesis using 1 by (auto simp: as_variable_def ret_def)
  next
    case False
    then have f: "\<forall>v. a \<noteq> PVar v" by simp
    from as_variable_fresh[OF 1 f] have x: "x = length (vars h)" and
      v2: "vars h2 = vars h @ [\<lparr>data = (case a of PArr d \<Rightarrow> Some d | _ \<Rightarrow> None), grad = PNone,
                               creator = None, generation = 0\<rparr>]" by simp_all
    have xl: "x < length (vars h2)" by (simp add: x v2)
    have "vars h1 ! x = vars h2 ! x" using vext_var[OF e2 xl] .
    also have "\<dots> = \<lparr>data = (case a of PArr d \<Rightarrow> Some d | _ \<Rightarrow> None), grad = PNone,
                               creator = None, generation = 0\<rparr>" by (simp add: x v2)
    finally show ?thesis using f xl le(2) x by (cases a) auto
  qed
  show ?case unfolding ins using hd tl by simp
qed

lemma accumulate_wl:
  assumes ok: "graph_ok b" and g: "gsame b h" and w: "wl_ok b G P w"
    and ps: "\<forall>(x, dx) \<in> set ps. x < length (vars b) \<and> generation (vars b ! x) \<le> G"
    and P: "\<forall>c. Some c \<in> P \<longrightarrow> G \<le> gen_key b (Some c)"
    and a: "accumulate ps w h = Inr (w', h')"
  shows "gsame b h' \<and> wl_ok b G P w' \<and> snd w \<subseteq> snd w' \<and>
         (\<forall>(x, dx) \<in> set ps. \<forall>c. creator (vars b ! x) = Some c \<longrightarrow> Some c \<in> snd w') \<and>
         set (fst w') \<subseteq> set (fst w) \<union>
            {Some c | c x. x \<in> fst ` set ps \<and> creator (vars b ! x) = Some c}"
  using g w ps a
proof (induction ps arbitrary: w h)
  case Nil
  then show ?case by (simp add: ret_def)
next
  case (Cons p ps)
  obtain x dx where p: "p = (x, dx)" by (cases p)
  from Cons.prems(4) obtain u h1 w1 h2 where
    1: "accumulate_grad x dx h = Inr (u, h1)" and
    2: "add_creator x w h1 = Inr (w1, h2)" and
    3: "accumulate ps w1 h2 = Inr (w', h')"
    unfolding p by (auto simp: bnd_Inr)
  have x: "x < length (vars b)" and gx: "generation (vars b ! x) \<le> G"
    using Cons.prems(3) p by auto
  have g1: "gsame b h1"
    using Cons.prems(1) gextendsD[OF gextends_accumulate_grad 1] by (rule gsame_trans)
  have cr: "creator (vars h1 ! x) = creator (vars b ! x)"
    using gsame_static[OF g1 x] by simp
  have step: "h2 = h1 \<and> wl_ok b G P w1 \<and> snd w \<subseteq> snd w1 \<and>
              (\<forall>c. creator (vars b ! x) = Some c \<longrightarrow> Some c \<in> snd w1) \<and>
              set (fst w1) \<subseteq> set (fst w) \<union> {Some c | c. creator (vars b ! x) = Some c}"
  proof (cases "creator (vars b ! x)")
    case None
    then show ?thesis using 2 cr Cons.prems(2) by (simp add: add_creator_def)
  next
    case (Some c)
    have r: "fn_ready b (Some c)" and k: "gen_key b (Some c) < generation (vars b ! x)"
      using graph_ok_fn_ready[OF ok x Some] by auto
    have kG: "gen_key b (Some c) \<le> G" using k gx by simp
    have nP: "Some c \<notin> P" using P k gx by fastforce
    have af: "add_func (Some c) w h1 = Inr (w1, h2)"
      using 2 cr Some by (simp add: add_creator_def)
    from add_func_wl[OF g1 Cons.prems(2) r kG nP af] Some show ?thesis by auto
  qed
  then have h2: "h2 = h1" by simp
  have pre: "\<forall>(x, dx) \<in> set ps. x < length (vars b) \<and> generation (vars b ! x) \<le> G"
    using Cons.prems(3) by auto
  from step have w1: "wl_ok b G P w1" by simp
  note IH = Cons.IH[OF g1 w1 pre 3[unfolded h2]]
  show ?case
  proof (intro conjI)
    show "gsame b h'" using IH by simp
    show "wl_ok b G P w'" using IH by simp
    show "snd w \<subseteq> snd w'" using IH step by blast
    show "\<forall>(x, dx) \<in> set (p # ps). \<forall>c. creator (vars b ! x) = Some c \<longrightarrow> Some c \<in> snd w'"
      using IH step unfolding p by auto
    define B where "B = {Some c | c x. x \<in> fst ` set ps \<and> creator (vars b ! x) = Some c}"
    define C where "C = {Some c | c. creator (vars b ! x) = Some c}"
    define D where "D = {Some c | c x. x \<in> fst ` set (p # ps) \<and> creator (vars b ! x) = Some c}"
    have s1: "B \<subseteq> D" unfolding B_def D_def by auto
    have s2: "C \<subseteq> D" unfolding C_def D_def p by fastforce
    have s3: "set (fst w') \<subseteq> set (fst w1) \<union> B"
      using IH unfolding B_def by simp
    have s4: "set (fst w1) \<subseteq> set (fst w) \<union> C"
      using step unfolding C_def by simp
    have "set (fst w') \<subseteq> set (fst w) \<union> D"
      using s1 s2 s3 s4 by blast
    then show "set (fst w') \<subseteq> set (fst w) \<union>
            {Some c | c x. x \<in> fst ` set (p # ps) \<and> creator (vars b ! x) = Some c}"
      unfolding D_def .
  qed
qed

lemma saved_Inr: "saved attr f h = Inr (s, h') \<longleftrightarrow> attr (funs h ! f) = Some s \<and> h' = h"
  by (auto simp: saved_def split: option.splits)

text \<open>One turn of the loop, taken apart.\<close>

lemma loop_body_steps:
  assumes ok: "graph_ok b" and g: "gsame b h" and r: "fn_ready b (last (fst w))"
    and a: "loop_body retain w h = Inr ((f, w'), h')"
  shows "\<exists>y dxs h1 ins h2.
     last (fst w) = Some f \<and> f < length (funs b) \<and>
     outputs (funs b ! f) = Some [y] \<and> y < length (vars b) \<and> creator (vars b ! y) = Some f \<and>
     backward_rule f [grad (vars h ! y)] h = Inr (dxs, h1) \<and>
     inputs (funs b ! f) = Some ins \<and> length dxs = length ins \<and>
     accumulate (zip ins dxs) (butlast (fst w), snd w) h1 = Inr (w', h2) \<and>
     h' = (if retain then h2 else h2\<lparr>vars := (vars h2)[y := (vars h2 ! y)\<lparr>grad := PNone\<rparr>]\<rparr>)"
proof -
  from r obtain f0 where l: "last (fst w) = Some f0" and f0: "f0 < length (funs b)"
    using fn_ready_Some by blast
  from r l obtain y where
    o: "outputs (funs b ! f0) = Some [y]" and y: "y < length (vars b)"
    and c: "creator (vars b ! y) = Some f0"
    using fn_ready_outputs by auto
  have fh: "funs h ! f0 = funs b ! f0" using gsame_fun[OF g f0] .
  from a obtain dxs h1 ins w2 h2 u h3 where
    1: "backward_rule f0 [grad (vars h ! y)] h = Inr (dxs, h1)" and
    2: "inputs (funs h1 ! f0) = Some ins" and
    3: "accumulate (zip ins dxs) (butlast (fst w), snd w) h1 = Inr (w2, h2)" and
    4: "(if \<not> retain then bnd (saved outputs f0) clear_outputs else ret ()) h2 = Inr (u, h3)" and
    5: "f = f0" "w' = w2" "h' = h3"
    unfolding loop_body_def l
    by (auto simp: bnd_Inr saved_Inr fh o ret_def)
  have g1: "gsame b h1"
    using g ext_gsame[OF extendsD[OF extends_backward_rule 1]] by (rule gsame_trans)
  have i: "inputs (funs b ! f0) = Some ins" using 2 gsame_fun[OF g1 f0] by simp
  have len: "length dxs = length ins"
    using backward_rule_result[OF 1] graph_ok_inputs[OF ok f0 i] fh by auto
  have g2: "gsame b h2"
    using g1 gextendsD[OF gextends_accumulate 3] by (rule gsame_trans)
  have o2: "outputs (funs h2 ! f0) = Some [y]" using o gsame_fun[OF g2 f0] by simp
  have h3: "h3 = (if retain then h2 else h2\<lparr>vars := (vars h2)[y := (vars h2 ! y)\<lparr>grad := PNone\<rparr>]\<rparr>)"
    using 4 by (auto simp: bnd_Inr saved_Inr o2 ret_def set_grad_simps split: if_splits)
  show ?thesis
    using l f0 o y c 1 i len 3 h3 unfolding 5 by blast
qed

lemma accumulate_grad_effect:
  assumes x: "x < length (vars h)"
    and a: "accumulate_grad x dx h = Inr (u, h')"
  shows "(grad (vars h ! x) \<noteq> PNone \<or> dx \<noteq> PNone \<longrightarrow> grad (vars h' ! x) \<noteq> PNone) \<and>
         (\<forall>v < length (vars h). v \<noteq> x \<longrightarrow> grad (vars h' ! v) = grad (vars h ! v)) \<and>
         (is_grad (grad (vars h ! x)) \<and> is_grad dx \<longrightarrow> is_grad (grad (vars h' ! x)))"
proof (cases "grad (vars h ! x) = PNone")
  case True
  then have "h' = h\<lparr>vars := (vars h)[x := (vars h ! x)\<lparr>grad := dx\<rparr>]\<rparr>"
    using a by (simp add: accumulate_grad_def set_grad_simps)
  then show ?thesis using x True by simp
next
  case False
  with a obtain g h1 where
    1: "py_binop OAdd (grad (vars h ! x)) dx h = Inr (g, h1)" and
    2: "h' = h1\<lparr>vars := (vars h1)[x := (vars h1 ! x)\<lparr>grad := g\<rparr>]\<rparr>"
    by (auto simp: accumulate_grad_def bnd_Inr set_grad_simps)
  have e: "ext h h1" using 1 by (rule extendsD[OF extends_py_binop])
  then have l: "length (vars h) \<le> length (vars h1)" by (simp add: ext_def)
  have g: "g \<noteq> PNone" "is_grad (grad (vars h ! x)) \<longrightarrow> is_var g"
    using py_binop_result[OF 1] by auto
  have "is_grad (grad (vars h ! x)) \<longrightarrow> is_grad g"
    using g is_var_grad by blast
  then show ?thesis using x l g e unfolding 2 by (auto simp: ext_var)
qed

text \<open>What the loop over the inputs does to the gradients of the first \<open>n\<close> Nodes.\<close>

lemma accumulate_grads:
  assumes "n \<le> length (vars h)"
    and "\<forall>(x, dx) \<in> set ps. x < n"
    and "accumulate ps w h = Inr (w', h')"
  shows "(\<forall>v < n. grad (vars h ! v) \<noteq> PNone \<or> (\<exists>dx. (v, dx) \<in> set ps \<and> dx \<noteq> PNone) \<longrightarrow>
            grad (vars h' ! v) \<noteq> PNone) \<and>
         (\<forall>v < n. v \<notin> fst ` set ps \<longrightarrow> grad (vars h' ! v) = grad (vars h ! v)) \<and>
         ((\<forall>v < n. is_grad (grad (vars h ! v))) \<and> (\<forall>(x, dx) \<in> set ps. is_grad dx) \<longrightarrow>
            (\<forall>v < n. is_grad (grad (vars h' ! v))))"
  using assms
proof (induction ps arbitrary: w h)
  case Nil
  then show ?case by (simp add: ret_def)
next
  case (Cons p ps)
  obtain x dx where p: "p = (x, dx)" by (cases p)
  from Cons.prems(3) obtain u h1 w1 h2 where
    1: "accumulate_grad x dx h = Inr (u, h1)" and
    2: "add_creator x w h1 = Inr (w1, h2)" and
    3: "accumulate ps w1 h2 = Inr (w', h')"
    unfolding p by (auto simp: bnd_Inr)
  have xn: "x < n" using Cons.prems(2) p by auto
  then have x: "x < length (vars h)" using Cons.prems(1) by simp
  note E = accumulate_grad_effect[OF x 1]
  have h2: "h2 = h1" using 2
    by (auto simp: add_creator_def add_func_def split: option.splits prod.splits if_splits)
  have l: "n \<le> length (vars h1)"
    using gextendsD[OF gextends_accumulate_grad 1] Cons.prems(1) by (simp add: gsame_def)
  have pre: "\<forall>(x, dx) \<in> set ps. x < n"
    using Cons.prems(2) by auto
  note IH = Cons.IH[OF l pre 3[unfolded h2]]
  have lt: "v < length (vars h)" if "v < n" for v using that Cons.prems(1) by simp
  show ?case
  proof (intro conjI allI impI)
    fix v assume v: "v < n"
      and "grad (vars h ! v) \<noteq> PNone \<or> (\<exists>dx. (v, dx) \<in> set (p # ps) \<and> dx \<noteq> PNone)"
    then have "grad (vars h1 ! v) \<noteq> PNone \<or> (\<exists>dx. (v, dx) \<in> set ps \<and> dx \<noteq> PNone)"
      using E lt[OF v] unfolding p by (cases "v = x") auto
    then show "grad (vars h' ! v) \<noteq> PNone" using IH v by blast
  next
    fix v assume v: "v < n" and n: "v \<notin> fst ` set (p # ps)"
    then have "grad (vars h' ! v) = grad (vars h1 ! v)" using IH by auto
    also have "\<dots> = grad (vars h ! v)" using E lt[OF v] n unfolding p by auto
    finally show "grad (vars h' ! v) = grad (vars h ! v)" .
  next
    fix v
    assume a: "(\<forall>v < n. is_grad (grad (vars h ! v))) \<and>
               (\<forall>(x, dx) \<in> set (p # ps). is_grad dx)" and v: "v < n"
    have "\<forall>v < n. is_grad (grad (vars h1 ! v))"
    proof (intro allI impI)
      fix u assume u: "u < n"
      then show "is_grad (grad (vars h1 ! u))"
        using E a xn lt[OF u] unfolding p by (cases "u = x") auto
    qed
    moreover have "\<forall>(x, dx) \<in> set ps. is_grad dx" using a by auto
    ultimately show "is_grad (grad (vars h' ! v))" using IH v by blast
  qed
qed

lemma sorted_map_last:
  assumes "sorted (map k xs)" "x \<in> set xs"
  shows "k x \<le> k (last xs)"
proof -
  from assms(2) have ne: "xs \<noteq> []" by auto
  then have xs: "xs = butlast xs @ [last xs]" by simp
  have "sorted (map k (butlast xs @ [last xs]))" using assms(1) xs by simp
  then have "\<forall>y \<in> set (butlast xs). k y \<le> k (last xs)"
    by (simp add: sorted_append)
  moreover have "x \<in> set (butlast xs) \<or> x = last xs"
    using assms(2) xs by (metis Un_iff insert_iff list.set(2) set_append empty_iff list.set(1))
  ultimately show ?thesis by auto
qed

lemma wl_ok_pop:
  assumes w: "wl_ok b G P w" and ne: "fst w \<noteq> []"
  shows "fn_ready b (last (fst w)) \<and> last (fst w) \<notin> P \<and> gen_key b (last (fst w)) \<le> G \<and>
         (\<forall>g \<in> set (butlast (fst w)). gen_key b g \<le> gen_key b (last (fst w))) \<and>
         wl_ok b (gen_key b (last (fst w))) (insert (last (fst w)) P) (butlast (fst w), snd w)"
proof -
  let ?fs = "fst w" and ?l = "last (fst w)"
  have xs: "?fs = butlast ?fs @ [?l]" using ne by simp
  have l: "?l \<in> set ?fs" using ne by simp
  have d: "distinct (butlast ?fs @ [?l])" using w xs by (simp add: wl_ok_def)
  then have nl: "?l \<notin> set (butlast ?fs)" and db: "distinct (butlast ?fs)" by simp_all
  have s: "set ?fs = insert ?l (set (butlast ?fs))"
    using xs by (metis Un_insert_right append_Nil2 list.simps(15) set_append)
  have le: "\<forall>g \<in> set (butlast ?fs). gen_key b g \<le> gen_key b ?l"
    using w sorted_map_last[of "gen_key b" ?fs] by (auto simp: wl_ok_def dest: in_set_butlastD)
  have r: "fn_ready b ?l" using w l by (simp add: wl_ok_def list_all_iff)
  have nP: "?l \<notin> P" using w l by (auto simp: wl_ok_def)
  have G: "gen_key b ?l \<le> G" using w l by (simp add: wl_ok_def)
  have rb: "list_all (fn_ready b) (butlast ?fs)"
    using w by (auto simp: wl_ok_def list_all_iff dest: in_set_butlastD)
  have "sorted (map (gen_key b) (butlast ?fs @ [?l]))" using w xs by (simp add: wl_ok_def)
  then have sb: "sorted (map (gen_key b) (butlast ?fs))"
    by (simp add: sorted_append)
  have sn: "snd w = set (butlast ?fs) \<union> insert ?l P"
    using w s by (auto simp: wl_ok_def)
  have dj: "set (butlast ?fs) \<inter> insert ?l P = {}"
    using w nl by (auto simp: wl_ok_def dest: in_set_butlastD)
  show ?thesis
    using r nP G le rb sb db sn dj by (simp add: wl_ok_def)
qed

lemma gsame_clear:
  assumes "gsame b h" "y < length (vars b)"
  shows "gsame b (h\<lparr>vars := (vars h)[y := (vars h ! y)\<lparr>grad := PNone\<rparr>]\<rparr>)"
  using assms unfolding gsame_def
  by (auto simp: nth_list_update)

text \<open>One turn of the loop on a well-formed graph.\<close>

lemma loop_turn:
  assumes ok: "graph_ok b" and g: "gsame b h" and w: "wl_ok b G P w"
    and P: "\<forall>c. Some c \<in> P \<longrightarrow> G \<le> gen_key b (Some c)"
    and ne: "fst w \<noteq> []"
    and a: "loop_body retain w h = Inr ((f, w'), h')"
  shows "\<exists>y ins dxs h1 h2.
     last (fst w) = Some f \<and> f < length (funs b) \<and> Some f \<notin> P \<and>
     outputs (funs b ! f) = Some [y] \<and> y < length (vars b) \<and> creator (vars b ! y) = Some f \<and>
     inputs (funs b ! f) = Some ins \<and> length dxs = length ins \<and>
     (\<forall>x \<in> set ins. x < length (vars b) \<and> generation (vars b ! x) \<le> gen_key b (Some f)) \<and>
     backward_rule f [grad (vars h ! y)] h = Inr (dxs, h1) \<and>
     accumulate (zip ins dxs) (butlast (fst w), snd w) h1 = Inr (w', h2) \<and>
     h' = (if retain then h2 else h2\<lparr>vars := (vars h2)[y := (vars h2 ! y)\<lparr>grad := PNone\<rparr>]\<rparr>) \<and>
     gsame b h1 \<and> gsame b h2 \<and> gsame b h' \<and>
     wl_ok b (gen_key b (Some f)) (insert (Some f) P) w' \<and>
     (\<forall>c. Some c \<in> insert (Some f) P \<longrightarrow> gen_key b (Some f) \<le> gen_key b (Some c)) \<and>
     (\<forall>g \<in> set (butlast (fst w)). gen_key b g \<le> gen_key b (Some f)) \<and>
     gen_key b (Some f) \<le> G \<and>
     snd w \<subseteq> snd w' \<and>
     (\<forall>x \<in> set ins. \<forall>c. creator (vars b ! x) = Some c \<longrightarrow> Some c \<in> snd w') \<and>
     set (fst w') \<subseteq> set (butlast (fst w)) \<union>
        {Some c | c x. x \<in> set ins \<and> creator (vars b ! x) = Some c}"
proof -
  note pop = wl_ok_pop[OF w ne]
  from pop have r: "fn_ready b (last (fst w))" by simp
  from loop_body_steps[OF ok g r a] obtain y dxs h1 ins h2 where
    l: "last (fst w) = Some f" and f: "f < length (funs b)" and
    o: "outputs (funs b ! f) = Some [y]" and y: "y < length (vars b)" and
    c: "creator (vars b ! y) = Some f" and
    br: "backward_rule f [grad (vars h ! y)] h = Inr (dxs, h1)" and
    i: "inputs (funs b ! f) = Some ins" and len: "length dxs = length ins" and
    ac: "accumulate (zip ins dxs) (butlast (fst w), snd w) h1 = Inr (w', h2)" and
    h': "h' = (if retain then h2 else h2\<lparr>vars := (vars h2)[y := (vars h2 ! y)\<lparr>grad := PNone\<rparr>]\<rparr>)"
    by blast
  let ?G = "gen_key b (Some f)"
  from r l obtain gf where gf: "f_generation (funs b ! f) = Some gf"
    by (auto simp: fn_ready_def)
  then have G': "?G = gf" by (simp add: gen_key_def)
  have ins: "\<forall>x \<in> set ins. x < length (vars b) \<and> generation (vars b ! x) \<le> ?G"
    using graph_ok_inputs[OF ok f i] gf G' by auto
  have g1: "gsame b h1"
    using g ext_gsame[OF extendsD[OF extends_backward_rule br]] by (rule gsame_trans)
  have w0: "wl_ok b ?G (insert (Some f) P) (butlast (fst w), snd w)"
    using pop l by simp
  have GG: "?G \<le> G" using pop l by simp
  have P': "\<forall>c. Some c \<in> insert (Some f) P \<longrightarrow> ?G \<le> gen_key b (Some c)"
    using P GG by auto
  have ps: "\<forall>(x, dx) \<in> set (zip ins dxs). x < length (vars b) \<and> generation (vars b ! x) \<le> ?G"
    using ins by (auto dest: set_zip_leftD)
  note A = accumulate_wl[OF ok g1 w0 ps P' ac]
  have fz: "fst ` set (zip ins dxs) = set ins"
    using len by (metis map_fst_zip set_map)
  have g2: "gsame b h2" using A by simp
  have g3: "gsame b h'" unfolding h' using g2 gsame_clear[OF g2 y] by simp
  have sub: "snd w \<subseteq> snd w'" using A by simp
  have cr: "\<forall>x \<in> set ins. \<forall>c. creator (vars b ! x) = Some c \<longrightarrow> Some c \<in> snd w'"
  proof (intro ballI allI impI)
    fix x c assume x: "x \<in> set ins" and cx: "creator (vars b ! x) = Some c"
    from x fz obtain dx where "(x, dx) \<in> set (zip ins dxs)" by force
    with A cx show "Some c \<in> snd w'" by fastforce
  qed
  have fs: "set (fst w') \<subseteq> set (butlast (fst w)) \<union>
        {Some c | c x. x \<in> set ins \<and> creator (vars b ! x) = Some c}"
    using A unfolding fz by simp
  have nP: "Some f \<notin> P" using pop l by simp
  have le: "\<forall>g \<in> set (butlast (fst w)). gen_key b g \<le> ?G" using pop l by simp
  have wl: "wl_ok b ?G (insert (Some f) P) w'" using A by simp
  show ?thesis
    apply (rule exI[of _ y], rule exI[of _ ins], rule exI[of _ dxs], rule exI[of _ h1],
           rule exI[of _ h2])
    apply (intro conjI)
    apply (rule l f nP o y c i len ins br ac h' g1 g2 g3 wl P' le GG sub cr fs)+
    done
qed

section \<open>Claims\<close>

text \<open>
  C3 (as amended). \<open>as_variable\<close> passes a Node through unchanged, wraps a raw array (and
  \<open>None\<close>) into a fresh leaf Node with no gradient, no creator and generation 0, and
  raises \<open>TypeError\<close> on a raw scalar, Python number or NumPy scalar alike: a scalar has
  to go through \<open>as_array\<close> first.
\<close>

theorem as_variable_cases:
  "as_variable (PVar v) h = Inr (v, h) \<and>
   as_variable (PArr a) h =
     Inr (length (vars h),
          h\<lparr>vars := vars h @ [\<lparr>data = Some a, grad = PNone, creator = None, generation = 0\<rparr>]\<rparr>) \<and>
   as_variable PNone h =
     Inr (length (vars h),
          h\<lparr>vars := vars h @ [\<lparr>data = None, grad = PNone, creator = None, generation = 0\<rparr>]\<rparr>) \<and>
   as_variable (PFloat r) h = Inl TypeError \<and>
   as_variable (PNpScalar r) h = Inl TypeError \<and>
   as_variable (as_array (PFloat r)) h =
     Inr (length (vars h),
          h\<lparr>vars := vars h @ [\<lparr>data = Some (scalar0 r), grad = PNone, creator = None,
                                 generation = 0\<rparr>]\<rparr>)"
  by (simp add: as_variable_def as_array_def Variable_init_def new_variable_def ret_def
      raise_def)

text \<open>
  C3 as stated fails: the raw scalar \<open>2.0\<close> is not wrapped, \<open>as_variable\<close> raises.
\<close>

theorem as_variable_scalar_counterexample:
  "\<not> (\<exists>v h'. as_variable (PFloat 2) \<lparr>vars = [], funs = [], enable_backprop = True\<rparr> = Inr (v, h'))"
  by (simp add: as_variable_def Variable_init_def raise_def)

text \<open>
  C1. Calling \<open>backward()\<close> on a Node without a creator is claimed to return normally.
  In the code it does not: after the seed gradient is stored, \<open>add_func(self.creator)\<close>
  is called with \<open>None\<close>, and sorting the worklist reads \<open>None.generation\<close>. The
  call inside the loop is guarded by \<open>if x.creator is not None\<close>; this one is not. So
  on every Node without a creator \<open>backward\<close> raises \<open>AttributeError\<close>, whatever the
  bound on the loop and whatever \<open>retain_grad\<close>.
\<close>

theorem backward_leaf_raises:
  assumes "v < length (vars h)" and "creator (vars h ! v) = None"
  shows "backward v retain_grad n h = Some (Inl AttributeError)"
proof (cases "grad (vars h ! v) = PNone")
  case False
  then show ?thesis using assms
    by (simp add: backward_def backward_trace_def seed_grad_def bnd_def add_func_def
        has_generation_def)
next
  case True
  show ?thesis
  proof (cases "data (vars h ! v)")
    case None
    then show ?thesis using True assms
      by (simp add: backward_def backward_trace_def seed_grad_def bnd_def shape_of_def)
  next
    case (Some a)
    then show ?thesis using True assms
      by (simp add: backward_def backward_trace_def seed_grad_def bnd_def shape_of_def
          Variable_init_def new_variable_def set_grad_def add_func_def has_generation_def
          nth_append)
  qed
qed

text \<open>The leaf \<open>x = Variable(np.array([1.0, 2.0]))\<close>, then \<open>x.backward()\<close>.\<close>

theorem backward_leaf_raises_witness:
  "backward 0 False 1
     \<lparr>vars = [\<lparr>data = Some \<lparr>shape = [2], elems = [1, 2]\<rparr>, grad = PNone, creator = None,
               generation = 0\<rparr>],
      funs = [], enable_backprop = True\<rparr> = Some (Inl AttributeError)"
  using backward_leaf_raises [of 0 "\<lparr>vars = [\<lparr>data = Some \<lparr>shape = [2], elems = [1, 2]\<rparr>,
     grad = PNone, creator = None, generation = 0\<rparr>], funs = [], enable_backprop = True\<rparr>" False 1]
  by simp

text \<open>
  C2. The gradient of negation is claimed to be the negated seed. \<open>Neg.backward\<close>
  negates twice (\<open>dx = -dy\<close>, \<open>return -dx\<close>) and hands the seed back unchanged
  (\<open>Neg_backward_returns_gradient_unchanged\<close> below, for every gradient). For
  \<open>x = Variable(np.array([1.0, 2.0]))\<close>, \<open>y = -x\<close>, \<open>y.backward()\<close> the gradient
  stored on \<open>x\<close> holds \<open>[1, 1]\<close>, not \<open>[-1, -1]\<close>.
\<close>

theorem neg_backward_run_gives_seed:
  "(case bnd (as_variable (PArr \<lparr>shape = [2], elems = [1, 2]\<rparr>)) (\<lambda>x. neg (PVar x)) empty_heap of
      Inr (y, h) \<Rightarrow>
        (case backward y False 1 h of
           Some (Inr h') \<Rightarrow>
             (case grad (vars h' ! 0) of PVar g \<Rightarrow> data (vars h' ! g) | _ \<Rightarrow> None)
         | _ \<Rightarrow> None)
    | Inl e \<Rightarrow> None) = Some \<lparr>shape = [2], elems = [1, 1]\<rparr>"
  by code_simp

lemma Neg_backward_returns_gradient_unchanged:
  assumes "dy < length (vars h)" "data (vars h ! dy) = Some a"
  shows "\<exists>r h'. Neg_backward f (PVar dy) h = Inr ([PVar r], h') \<and> data (vars h' ! r) = Some a"
proof -
  from call_Neg[OF assms] obtain h1 where
    1: "call Neg [PVar dy] h = Inr (length (vars h), h1)" and
    d1: "data (vars h1 ! length (vars h)) = Some (np_neg a)" and
    l1: "length (vars h1) = Suc (length (vars h))"
    by blast
  have l: "length (vars h) < length (vars h1)"
    using l1 by simp
  from call_Neg[OF l d1] obtain h2 where
    2: "call Neg [PVar (length (vars h))] h1 = Inr (length (vars h1), h2)" and
    d2: "data (vars h2 ! length (vars h1)) = Some (np_neg (np_neg a))"
    by blast
  show ?thesis using 1 2 d2
    by (auto simp: Neg_backward_def py_neg_def neg_def bnd_def ret_def)
qed

text \<open>
  C7. With gradient tracking on, a call \<open>K(...)(args)\<close> of any of the Function classes
  that returns has recorded as inputs, argument by argument, the Node that was passed or
  the fresh leaf (generation 0) that wraps a raw argument; the new Function object has
  \<open>generation\<close> the maximum of the generations of these inputs, and its output has that
  Function as creator and generation one more. The generation of every Node that existed
  before is unchanged by the call, and a later \<open>backward\<close> changes no generation, of a
  Node or of a Function.
\<close>

theorem call_generation:
  assumes "enable_backprop h"
    and "\<forall>v. PVar v \<in> set args \<longrightarrow> v < length (vars h)"
    and "call k args h = Inr (y, h')"
  shows "(\<exists>ins. list_all2 (\<lambda>a x. case a of
                     PVar v \<Rightarrow> x = v
                   | _ \<Rightarrow> length (vars h) \<le> x \<and> x < y \<and>
                         vars h' ! x = \<lparr>data = (case a of PArr d \<Rightarrow> Some d | _ \<Rightarrow> None),
                                        grad = PNone, creator = None, generation = 0\<rparr>)
                  args ins \<and>
           ins \<noteq> [] \<and>
           kind (funs h' ! length (funs h)) = k \<and>
           inputs (funs h' ! length (funs h)) = Some ins \<and>
           outputs (funs h' ! length (funs h)) = Some [y] \<and>
           f_generation (funs h' ! length (funs h)) =
             Some (Max (set (map (\<lambda>x. generation (vars h' ! x)) ins))) \<and>
           creator (vars h' ! y) = Some (length (funs h)) \<and>
           generation (vars h' ! y) = Max (set (map (\<lambda>x. generation (vars h' ! x)) ins)) + 1) \<and>
         (\<forall>x < length (vars h). generation (vars h' ! x) = generation (vars h ! x)) \<and>
         (\<forall>v retain_grad n h''. backward v retain_grad n h' = Some (Inr h'') \<longrightarrow>
            (\<forall>x < length (vars h'). generation (vars h'' ! x) = generation (vars h' ! x)) \<and>
            (\<forall>f < length (funs h'). f_generation (funs h'' ! f) = f_generation (funs h' ! f)))"
proof (intro conjI allI impI)
  from call_result[OF assms(3,2)] obtain ins h1 yd f' where r:
    "mapM as_variable args (h\<lparr>funs := funs h @ [fresh_function k]\<rparr>) = Inr (ins, h1) \<and>
     funs h1 = funs h @ [fresh_function k] \<and>
     forward k (fresh_function k) (map (\<lambda>x. data (vars h1 ! x)) ins) = Inr (yd, f') \<and>
     y = length (vars h1) \<and> (\<forall>x \<in> set ins. x < length (vars h1)) \<and>
     (if enable_backprop h
      then ins \<noteq> [] \<and>
           vars h' = vars h1 @ [\<lparr>data = Some yd, grad = PNone, creator = Some (length (funs h)),
              generation = Max (set (map (\<lambda>x. generation (vars h1 ! x)) ins)) + 1\<rparr>] \<and>
           funs h' = funs h @ [f'\<lparr>f_generation :=
                                     Some (Max (set (map (\<lambda>x. generation (vars h1 ! x)) ins))),
                                   inputs := Some ins, outputs := Some [y]\<rparr>]
      else vars h' = vars h1 @ [\<lparr>data = Some yd, grad = PNone, creator = None, generation = 0\<rparr>] \<and>
           funs h' = funs h @ [f'])"
    by (elim exE) (rule that)
  from r have y: "y = length (vars h1)" and val: "\<forall>x \<in> set ins. x < length (vars h1)"
    and m: "mapM as_variable args (h\<lparr>funs := funs h @ [fresh_function k]\<rparr>) = Inr (ins, h1)"
    and fw: "forward k (fresh_function k) (map (\<lambda>x. data (vars h1 ! x)) ins) = Inr (yd, f')"
    by simp_all
  from r assms(1) have ne: "ins \<noteq> []" and
    vs: "vars h' = vars h1 @ [\<lparr>data = Some yd, grad = PNone, creator = Some (length (funs h)),
              generation = Max (set (map (\<lambda>x. generation (vars h1 ! x)) ins)) + 1\<rparr>]" and
    fs: "funs h' = funs h @ [f'\<lparr>f_generation :=
                                     Some (Max (set (map (\<lambda>x. generation (vars h1 ! x)) ins))),
                                   inputs := Some ins, outputs := Some [y]\<rparr>]"
    by simp_all
  have g: "(\<lambda>x. generation (vars h' ! x)) ` set ins = (\<lambda>x. generation (vars h1 ! x)) ` set ins"
    using val by (intro image_cong) (auto simp: vs nth_append)
  have k: "kind f' = k" using forward_static[OF fw] by (simp add: fresh_function_def)
  have rel: "list_all2 (\<lambda>a x. case a of
                     PVar v \<Rightarrow> x = v
                   | _ \<Rightarrow> length (vars h) \<le> x \<and> x < y \<and>
                         vars h' ! x = \<lparr>data = (case a of PArr d \<Rightarrow> Some d | _ \<Rightarrow> None),
                                        grad = PNone, creator = None, generation = 0\<rparr>)
                  args ins"
    by (rule list_all2_mono[OF mapM_as_variable_rel[OF m]])
       (auto simp: y vs nth_append split: pyval.splits)
  show "\<exists>ins. list_all2 (\<lambda>a x. case a of
                     PVar v \<Rightarrow> x = v
                   | _ \<Rightarrow> length (vars h) \<le> x \<and> x < y \<and>
                         vars h' ! x = \<lparr>data = (case a of PArr d \<Rightarrow> Some d | _ \<Rightarrow> None),
                                        grad = PNone, creator = None, generation = 0\<rparr>)
                  args ins \<and>
           ins \<noteq> [] \<and>
           kind (funs h' ! length (funs h)) = k \<and>
           inputs (funs h' ! length (funs h)) = Some ins \<and>
           outputs (funs h' ! length (funs h)) = Some [y] \<and>
           f_generation (funs h' ! length (funs h)) =
             Some (Max (set (map (\<lambda>x. generation (vars h' ! x)) ins))) \<and>
           creator (vars h' ! y) = Some (length (funs h)) \<and>
           generation (vars h' ! y) = Max (set (map (\<lambda>x. generation (vars h' ! x)) ins)) + 1"
    using ne g rel k by (intro exI[of _ ins]) (simp add: fs vs y)
next
  fix x assume "x < length (vars h)"
  then show "generation (vars h' ! x) = generation (vars h ! x)"
    using extendsD[OF extends_call assms(3)] by (simp add: ext_var)
next
  fix v retain_grad n h'' x
  assume "backward v retain_grad n h' = Some (Inr h'')" "x < length (vars h')"
  then show "generation (vars h'' ! x) = generation (vars h' ! x)"
    using gsame_static[OF backward_gsame] by blast
next
  fix v retain_grad n h'' f
  assume "backward v retain_grad n h' = Some (Inr h'')" "f < length (funs h')"
  then show "f_generation (funs h'' ! f) = f_generation (funs h' ! f)"
    using gsame_fun[OF backward_gsame] by simp
qed

text \<open>
  \<open>x = Variable(np.array([1.0, 2.0])); nx = -x; y = Add()(x, nx); y.backward()\<close>: the
  inputs have generations 0 and 1, the Function gets 1 and \<open>y\<close> gets 2, and the backward
  pass leaves all of them as they are.
\<close>

theorem call_generation_witness:
  "(case call Neg [PVar 0] (leaf_heap \<lparr>shape = [2], elems = [1, 2]\<rparr>) of
      Inl e \<Rightarrow> False
    | Inr (nx, h) \<Rightarrow>
        generation (vars h ! 0) = 0 \<and> generation (vars h ! nx) = 1 \<and>
        (case call Add [PVar 0, PVar nx] h of
           Inl e \<Rightarrow> False
         | Inr (y, h') \<Rightarrow>
             inputs (funs h' ! length (funs h)) = Some [0, nx] \<and>
             f_generation (funs h' ! length (funs h)) = Some 1 \<and>
             creator (vars h' ! y) = Some (length (funs h)) \<and>
             generation (vars h' ! y) = 2 \<and>
             generation (vars h' ! 0) = 0 \<and> generation (vars h' ! nx) = 1 \<and>
             (case backward y False 3 h' of
                Some (Inr h'') \<Rightarrow>
                  grad (vars h'' ! 0) \<noteq> PNone \<and>
                  generation (vars h'' ! 0) = 0 \<and> generation (vars h'' ! nx) = 1 \<and>
                  generation (vars h'' ! y) = 2 \<and>
                  f_generation (funs h'' ! 0) = Some 0 \<and>
                  f_generation (funs h'' ! length (funs h)) = Some 1
              | _ \<Rightarrow> False)))"
proof -
  let ?a = "\<lparr>shape = [2], elems = [1, 2]\<rparr>"
  let ?x = "\<lparr>data = Some \<lparr>shape = [2], elems = [1, 2]\<rparr>, grad = PNone, creator = None,
              generation = 0\<rparr>"
  let ?nx = "\<lparr>data = Some \<lparr>shape = [2], elems = [- 1, - 2]\<rparr>, grad = PNone, creator = Some 0,
               generation = 1\<rparr>"
  let ?y = "\<lparr>data = Some \<lparr>shape = [2], elems = [0, 0]\<rparr>, grad = PNone, creator = Some 1,
              generation = 2\<rparr>"
  let ?fn = "\<lparr>kind = Neg, x0_shape = None, x1_shape = None, x_shape = None, mask = None,
               inputs = Some [0], outputs = Some [1], f_generation = Some 0\<rparr>"
  let ?fa = "\<lparr>kind = Add, x0_shape = Some [2], x1_shape = Some [2], x_shape = None,
               mask = None, inputs = Some [0, 1], outputs = Some [2], f_generation = Some 1\<rparr>"
  let ?h = "\<lparr>vars = [?x, ?nx], funs = [?fn], enable_backprop = True\<rparr>"
  let ?h' = "\<lparr>vars = [?x, ?nx, ?y], funs = [?fn, ?fa], enable_backprop = True\<rparr>"
  let ?h'' = "\<lparr>vars = [?x\<lparr>grad := PVar 6\<rparr>, ?nx, ?y,
                       \<lparr>data = Some \<lparr>shape = [2], elems = [1, 1]\<rparr>, grad = PNone,
                         creator = None, generation = 0\<rparr>,
                       \<lparr>data = Some \<lparr>shape = [2], elems = [- 1, - 1]\<rparr>, grad = PNone,
                         creator = Some 2, generation = 1\<rparr>,
                       \<lparr>data = Some \<lparr>shape = [2], elems = [1, 1]\<rparr>, grad = PNone,
                         creator = Some 3, generation = 2\<rparr>,
                       \<lparr>data = Some \<lparr>shape = [2], elems = [2, 2]\<rparr>, grad = PNone,
                         creator = Some 4, generation = 3\<rparr>],
               funs = [?fn, ?fa,
                       \<lparr>kind = Neg, x0_shape = None, x1_shape = None, x_shape = None,
                         mask = None, inputs = Some [3], outputs = Some [4],
                         f_generation = Some 0\<rparr>,
                       \<lparr>kind = Neg, x0_shape = None, x1_shape = None, x_shape = None,
                         mask = None, inputs = Some [4], outputs = Some [5],
                         f_generation = Some 1\<rparr>,
                       \<lparr>kind = Add, x0_shape = Some [2], x1_shape = Some [2], x_shape = None,
                         mask = None, inputs = Some [3, 5], outputs = Some [6],
                         f_generation = Some 2\<rparr>],
               enable_backprop = True\<rparr>"
  have n: "call Neg [PVar 0] (leaf_heap ?a) = Inr (1, ?h)"
    by code_simp
  have c: "call Add [PVar 0, PVar 1] ?h = Inr (2, ?h')"
    by code_simp
  have b: "backward 2 False 3 ?h' = Some (Inr ?h'')"
    by code_simp
  have e: "enable_backprop ?h" by simp
  have v: "\<forall>v. PVar v \<in> set [PVar 0, PVar 1] \<longrightarrow> v < length (vars ?h)" by auto
  note t = call_generation [OF e v c]
  from t [THEN conjunct1] obtain ins where
    rel: "list_all2 (\<lambda>a x. case a of
                     PVar v \<Rightarrow> x = v
                   | _ \<Rightarrow> length (vars ?h) \<le> x \<and> x < 2 \<and>
                         vars ?h' ! x = \<lparr>data = (case a of PArr d \<Rightarrow> Some d | _ \<Rightarrow> None),
                                        grad = PNone, creator = None, generation = 0\<rparr>)
                  [PVar 0, PVar 1] ins" and
    i: "inputs (funs ?h' ! length (funs ?h)) = Some ins" and
    fg: "f_generation (funs ?h' ! length (funs ?h)) =
           Some (Max (set (map (\<lambda>x. generation (vars ?h' ! x)) ins)))" and
    cr: "creator (vars ?h' ! 2) = Some (length (funs ?h))" and
    yg: "generation (vars ?h' ! 2) = Max (set (map (\<lambda>x. generation (vars ?h' ! x)) ins)) + 1"
    by blast
  from rel have ins: "ins = [0, 1]"
    by (auto simp: list_all2_Cons1)
  from t [THEN conjunct2, THEN conjunct1] have
    old: "generation (vars ?h' ! 0) = generation (vars ?h ! 0)"
         "generation (vars ?h' ! 1) = generation (vars ?h ! 1)"
    by simp_all
  have mx: "Max (set (map (\<lambda>x. generation (vars ?h' ! x)) ins)) = 1"
    unfolding ins using old by simp
  from t [THEN conjunct2, THEN conjunct2, rule_format, OF b] have
    bv: "\<forall>x < length (vars ?h'). generation (vars ?h'' ! x) = generation (vars ?h' ! x)" and
    bf: "\<forall>f < length (funs ?h'). f_generation (funs ?h'' ! f) = f_generation (funs ?h' ! f)"
    by blast+
  from bv have bv': "generation (vars ?h'' ! 0) = generation (vars ?h' ! 0)"
    "generation (vars ?h'' ! 1) = generation (vars ?h' ! 1)"
    "generation (vars ?h'' ! 2) = generation (vars ?h' ! 2)"
    by simp_all
  from bf have bf': "f_generation (funs ?h'' ! 0) = f_generation (funs ?h' ! 0)"
    "f_generation (funs ?h'' ! length (funs ?h)) = f_generation (funs ?h' ! length (funs ?h))"
    by simp_all
  show ?thesis
    apply (simp only: n sum.case prod.case)
    apply (simp only: c sum.case prod.case)
    apply (simp only: b option.case sum.case)
    using i fg cr yg mx old bv' bf' ins by simp
qed

text \<open>
  C9. \<open>BroadcastTo\<close> and \<open>SumTo\<close> are dual in their backward rules: for a Node \<open>x\<close>
  with data of shape \<open>shape a\<close>, the Function object \<open>f\<close> that \<open>broadcast_to(x, s)\<close>
  creates has as backward rule \<open>sum_to(dy, shape a)\<close>, and the one that \<open>sum_to(x, s)\<close>
  creates has \<open>broadcast_to(dy, shape a)\<close>, for every gradient \<open>dy\<close> and in every heap
  that still holds the Function object as the call left it, whatever else has changed
  (gradients stored, Nodes and Functions added); the heap a \<open>backward\<close> run leaves is such
  a heap. When \<open>s\<close> is the shape of \<open>x\<close>, both functions return \<open>x\<close> itself and leave
  the heap as it is: no Function object is created, so there is nothing for a backward
  pass to do.
\<close>

theorem broadcast_sum_dual:
  assumes x: "x < length (vars h)" and d: "data (vars h ! x) = Some a"
  shows "(shape a = s \<longrightarrow>
            sum_to (PVar x) s h = Inr (x, h) \<and> broadcast_to (PVar x) s h = Inr (x, h)) \<and>
         (\<forall>y h'. shape a \<noteq> s \<and> enable_backprop h \<and>
              broadcast_to (PVar x) s h = Inr (y, h') \<longrightarrow>
            (\<exists>f. creator (vars h' ! y) = Some f \<and> f < length (funs h') \<and>
                 kind (funs h' ! f) = BroadcastTo s \<and>
                 inputs (funs h' ! f) = Some [x] \<and> outputs (funs h' ! f) = Some [y] \<and>
                 (\<forall>g dy. funs g ! f = funs h' ! f \<longrightarrow>
                    backward_rule f [dy] g =
                      bnd (sum_to dy (shape a)) (\<lambda>dx. ret [PVar dx]) g) \<and>
                 (\<forall>v retain_grad n g. backward v retain_grad n h' = Some (Inr g) \<longrightarrow>
                    funs g ! f = funs h' ! f))) \<and>
         (\<forall>y h'. shape a \<noteq> s \<and> enable_backprop h \<and>
              sum_to (PVar x) s h = Inr (y, h') \<longrightarrow>
            (\<exists>f. creator (vars h' ! y) = Some f \<and> f < length (funs h') \<and>
                 kind (funs h' ! f) = SumTo s \<and>
                 inputs (funs h' ! f) = Some [x] \<and> outputs (funs h' ! f) = Some [y] \<and>
                 (\<forall>g dy. funs g ! f = funs h' ! f \<longrightarrow>
                    backward_rule f [dy] g =
                      bnd (broadcast_to dy (shape a)) (\<lambda>dx. ret [PVar dx]) g) \<and>
                 (\<forall>v retain_grad n g. backward v retain_grad n h' = Some (Inr g) \<longrightarrow>
                    funs g ! f = funs h' ! f)))"
proof (intro conjI allI impI)
  assume "shape a = s"
  then show "sum_to (PVar x) s h = Inr (x, h)" "broadcast_to (PVar x) s h = Inr (x, h)"
    using d by (simp_all add: sum_to_def broadcast_to_def bnd_def shape_of_def as_variable_def ret_def)
next
  fix y h'
  assume a: "shape a \<noteq> s \<and> enable_backprop h \<and> broadcast_to (PVar x) s h = Inr (y, h')"
  then have c: "call (BroadcastTo s) [PVar x] h = Inr (y, h')"
    using d by (auto simp: broadcast_to_def bnd_def shape_of_def)
  from call_single[OF c x] a d obtain yd f' where
    fw: "forward (BroadcastTo s) (fresh_function (BroadcastTo s)) [Some a] = Inr (yd, f')" and
    y: "y = length (vars h)" and
    vs: "vars h' = vars h @ [\<lparr>data = Some yd, grad = PNone, creator = Some (length (funs h)),
                          generation = generation (vars h ! x) + 1\<rparr>]" and
    fs: "funs h' = funs h @ [f'\<lparr>f_generation := Some (generation (vars h ! x)),
                             inputs := Some [x], outputs := Some [y]\<rparr>]"
    by auto
  let ?f = "length (funs h)"
  have f': "f' = (fresh_function (BroadcastTo s))\<lparr>x_shape := Some (shape a)\<rparr>"
    using forward_BroadcastTo[OF fw] .
  have fl: "?f < length (funs h')" by (simp add: fs)
  have r: "\<forall>g dy. funs g ! ?f = funs h' ! ?f \<longrightarrow>
             backward_rule ?f [dy] g = bnd (sum_to dy (shape a)) (\<lambda>dx. ret [PVar dx]) g"
    by (simp add: backward_rule_def fs f' fresh_function_def BroadcastTo_backward_def
        bnd_def saved_def)
  have b: "\<forall>v retain_grad n g. backward v retain_grad n h' = Some (Inr g) \<longrightarrow>
             funs g ! ?f = funs h' ! ?f"
    using gsame_fun[OF backward_gsame, OF _ fl] by blast
  show "\<exists>f. creator (vars h' ! y) = Some f \<and> f < length (funs h') \<and>
                 kind (funs h' ! f) = BroadcastTo s \<and>
                 inputs (funs h' ! f) = Some [x] \<and> outputs (funs h' ! f) = Some [y] \<and>
                 (\<forall>g dy. funs g ! f = funs h' ! f \<longrightarrow>
                    backward_rule f [dy] g =
                      bnd (sum_to dy (shape a)) (\<lambda>dx. ret [PVar dx]) g) \<and>
                 (\<forall>v retain_grad n g. backward v retain_grad n h' = Some (Inr g) \<longrightarrow>
                    funs g ! f = funs h' ! f)"
    using r b by (intro exI[of _ ?f]) (simp add: vs fs y f' fresh_function_def)
next
  fix y h'
  assume a: "shape a \<noteq> s \<and> enable_backprop h \<and> sum_to (PVar x) s h = Inr (y, h')"
  then have c: "call (SumTo s) [PVar x] h = Inr (y, h')"
    using d by (auto simp: sum_to_def bnd_def shape_of_def)
  from call_single[OF c x] a d obtain yd f' where
    fw: "forward (SumTo s) (fresh_function (SumTo s)) [Some a] = Inr (yd, f')" and
    y: "y = length (vars h)" and
    vs: "vars h' = vars h @ [\<lparr>data = Some yd, grad = PNone, creator = Some (length (funs h)),
                          generation = generation (vars h ! x) + 1\<rparr>]" and
    fs: "funs h' = funs h @ [f'\<lparr>f_generation := Some (generation (vars h ! x)),
                             inputs := Some [x], outputs := Some [y]\<rparr>]"
    by auto
  let ?f = "length (funs h)"
  have f': "f' = (fresh_function (SumTo s))\<lparr>x_shape := Some (shape a)\<rparr>"
    using forward_SumTo[OF fw] .
  have fl: "?f < length (funs h')" by (simp add: fs)
  have r: "\<forall>g dy. funs g ! ?f = funs h' ! ?f \<longrightarrow>
             backward_rule ?f [dy] g = bnd (broadcast_to dy (shape a)) (\<lambda>dx. ret [PVar dx]) g"
    by (simp add: backward_rule_def fs f' fresh_function_def SumTo_backward_def
        bnd_def saved_def)
  have b: "\<forall>v retain_grad n g. backward v retain_grad n h' = Some (Inr g) \<longrightarrow>
             funs g ! ?f = funs h' ! ?f"
    using gsame_fun[OF backward_gsame, OF _ fl] by blast
  show "\<exists>f. creator (vars h' ! y) = Some f \<and> f < length (funs h') \<and>
                 kind (funs h' ! f) = SumTo s \<and>
                 inputs (funs h' ! f) = Some [x] \<and> outputs (funs h' ! f) = Some [y] \<and>
                 (\<forall>g dy. funs g ! f = funs h' ! f \<longrightarrow>
                    backward_rule f [dy] g =
                      bnd (broadcast_to dy (shape a)) (\<lambda>dx. ret [PVar dx]) g) \<and>
                 (\<forall>v retain_grad n g. backward v retain_grad n h' = Some (Inr g) \<longrightarrow>
                    funs g ! f = funs h' ! f)"
    using r b by (intro exI[of _ ?f]) (simp add: vs fs y f' fresh_function_def)
qed

text \<open>
  \<open>x = Variable(np.array([1.0, 2.0]))\<close>; \<open>y = broadcast_to(x, (3, 2))\<close>, and
  \<open>y = sum_to(x, (1,))\<close>: the backward rule applied, as \<open>y.backward()\<close> does, to the seed
  \<open>y.grad\<close> in the heap that holds the seed.
\<close>

theorem broadcast_sum_dual_witness:
  "sum_to (PVar 0) [2] (leaf_heap \<lparr>shape = [2], elems = [1, 2]\<rparr>) =
     Inr (0, leaf_heap \<lparr>shape = [2], elems = [1, 2]\<rparr>) \<and>
   broadcast_to (PVar 0) [2] (leaf_heap \<lparr>shape = [2], elems = [1, 2]\<rparr>) =
     Inr (0, leaf_heap \<lparr>shape = [2], elems = [1, 2]\<rparr>) \<and>
   (case broadcast_to (PVar 0) [3, 2] (leaf_heap \<lparr>shape = [2], elems = [1, 2]\<rparr>) of
      Inl e \<Rightarrow> False
    | Inr (y, h') \<Rightarrow>
        (case seed_grad y h' of
           Inl e \<Rightarrow> False
         | Inr (u, g) \<Rightarrow>
             grad (vars g ! y) = PVar 2 \<and>
             data (vars g ! 2) = Some \<lparr>shape = [3, 2], elems = [1, 1, 1, 1, 1, 1]\<rparr> \<and>
             (\<exists>f. creator (vars h' ! y) = Some f \<and> kind (funs h' ! f) = BroadcastTo [3, 2] \<and>
                  inputs (funs h' ! f) = Some [0] \<and>
                  backward_rule f [grad (vars g ! y)] g =
                    bnd (sum_to (grad (vars g ! y)) [2]) (\<lambda>dx. ret [PVar dx]) g \<and>
                  (\<exists>dx g'. backward_rule f [grad (vars g ! y)] g = Inr ([PVar dx], g') \<and>
                     data (vars g' ! dx) = Some \<lparr>shape = [2], elems = [3, 3]\<rparr>)))) \<and>
   (case sum_to (PVar 0) [1] (leaf_heap \<lparr>shape = [2], elems = [1, 2]\<rparr>) of
      Inl e \<Rightarrow> False
    | Inr (y, h') \<Rightarrow>
        (case seed_grad y h' of
           Inl e \<Rightarrow> False
         | Inr (u, g) \<Rightarrow>
             grad (vars g ! y) = PVar 2 \<and>
             data (vars g ! 2) = Some \<lparr>shape = [1], elems = [1]\<rparr> \<and>
             (\<exists>f. creator (vars h' ! y) = Some f \<and> kind (funs h' ! f) = SumTo [1] \<and>
                  inputs (funs h' ! f) = Some [0] \<and>
                  backward_rule f [grad (vars g ! y)] g =
                    bnd (broadcast_to (grad (vars g ! y)) [2]) (\<lambda>dx. ret [PVar dx]) g \<and>
                  (\<exists>dx g'. backward_rule f [grad (vars g ! y)] g = Inr ([PVar dx], g') \<and>
                     data (vars g' ! dx) = Some \<lparr>shape = [2], elems = [1, 1]\<rparr>))))"
proof -
  let ?a = "\<lparr>shape = [2], elems = [1, 2]\<rparr>"
  let ?x = "\<lparr>data = Some \<lparr>shape = [2], elems = [1, 2]\<rparr>, grad = PNone, creator = None,
              generation = 0\<rparr>"
  let ?yb = "\<lparr>data = Some \<lparr>shape = [3, 2], elems = [1, 2, 1, 2, 1, 2]\<rparr>, grad = PNone,
               creator = Some 0, generation = 1\<rparr>"
  let ?ys = "\<lparr>data = Some \<lparr>shape = [1], elems = [3]\<rparr>, grad = PNone,
               creator = Some 0, generation = 1\<rparr>"
  let ?fb = "\<lparr>kind = BroadcastTo [3, 2], x0_shape = None, x1_shape = None,
               x_shape = Some [2], mask = None, inputs = Some [0],
               outputs = Some [1], f_generation = Some 0\<rparr>"
  let ?fs = "\<lparr>kind = SumTo [1], x0_shape = None, x1_shape = None,
               x_shape = Some [2], mask = None, inputs = Some [0],
               outputs = Some [1], f_generation = Some 0\<rparr>"
  let ?ob = "\<lparr>data = Some \<lparr>shape = [3, 2], elems = [1, 1, 1, 1, 1, 1]\<rparr>, grad = PNone,
               creator = None, generation = 0\<rparr>"
  let ?os = "\<lparr>data = Some \<lparr>shape = [1], elems = [1]\<rparr>, grad = PNone,
               creator = None, generation = 0\<rparr>"
  let ?hb = "\<lparr>vars = [?x, ?yb], funs = [?fb], enable_backprop = True\<rparr>"
  let ?hs = "\<lparr>vars = [?x, ?ys], funs = [?fs], enable_backprop = True\<rparr>"
  let ?gb = "\<lparr>vars = [?x, ?yb\<lparr>grad := PVar 2\<rparr>, ?ob], funs = [?fb], enable_backprop = True\<rparr>"
  let ?gs = "\<lparr>vars = [?x, ?ys\<lparr>grad := PVar 2\<rparr>, ?os], funs = [?fs], enable_backprop = True\<rparr>"
  let ?gb' = "\<lparr>vars = [?x, ?yb\<lparr>grad := PVar 2\<rparr>, ?ob,
                       \<lparr>data = Some \<lparr>shape = [2], elems = [3, 3]\<rparr>, grad = PNone,
                         creator = Some 1, generation = 1\<rparr>],
               funs = [?fb,
                       \<lparr>kind = SumTo [2], x0_shape = None, x1_shape = None,
                         x_shape = Some [3, 2], mask = None, inputs = Some [2],
                         outputs = Some [3], f_generation = Some 0\<rparr>],
               enable_backprop = True\<rparr>"
  let ?gs' = "\<lparr>vars = [?x, ?ys\<lparr>grad := PVar 2\<rparr>, ?os,
                       \<lparr>data = Some \<lparr>shape = [2], elems = [1, 1]\<rparr>, grad = PNone,
                         creator = Some 1, generation = 1\<rparr>],
               funs = [?fs,
                       \<lparr>kind = BroadcastTo [2], x0_shape = None, x1_shape = None,
                         x_shape = Some [1], mask = None, inputs = Some [2],
                         outputs = Some [3], f_generation = Some 0\<rparr>],
               enable_backprop = True\<rparr>"
  have x: "0 < length (vars (leaf_heap ?a))" and d: "data (vars (leaf_heap ?a) ! 0) = Some ?a"
    and eb: "enable_backprop (leaf_heap ?a)"
    by (simp_all add: leaf_heap_def)
  have b: "broadcast_to (PVar 0) [3, 2] (leaf_heap ?a) = Inr (1, ?hb)"
    by code_simp
  have s: "sum_to (PVar 0) [1] (leaf_heap ?a) = Inr (1, ?hs)"
    by code_simp
  have sb: "seed_grad 1 ?hb = Inr ((), ?gb)"
    by code_simp
  have ss: "seed_grad 1 ?hs = Inr ((), ?gs)"
    by code_simp
  have rb: "bnd (sum_to (PVar 2) [2]) (\<lambda>dx. ret [PVar dx]) ?gb = Inr ([PVar 3], ?gb')"
    by code_simp
  have rs: "bnd (broadcast_to (PVar 2) [2]) (\<lambda>dx. ret [PVar dx]) ?gs = Inr ([PVar 3], ?gs')"
    by code_simp
  note t = broadcast_sum_dual [OF x d]
  have 1: "sum_to (PVar 0) [2] (leaf_heap ?a) = Inr (0, leaf_heap ?a) \<and>
           broadcast_to (PVar 0) [2] (leaf_heap ?a) = Inr (0, leaf_heap ?a)"
    using t [of "[2]", THEN conjunct1] by simp
  from t [of "[3, 2]", THEN conjunct2, THEN conjunct1, rule_format, of 1 ?hb] b eb
  obtain f where f: "creator (vars ?hb ! 1) = Some f" "kind (funs ?hb ! f) = BroadcastTo [3, 2]"
      "inputs (funs ?hb ! f) = Some [0]" and
    r: "\<forall>g dy. funs g ! f = funs ?hb ! f \<longrightarrow>
          backward_rule f [dy] g = bnd (sum_to dy (shape ?a)) (\<lambda>dx. ret [PVar dx]) g"
    by auto
  from f(1) have f0: "f = 0" by simp
  from r [rule_format, of ?gb "PVar 2"] have
    e2: "backward_rule f [PVar 2] ?gb = bnd (sum_to (PVar 2) [2]) (\<lambda>dx. ret [PVar dx]) ?gb"
    by (simp add: f0)
  have 2: "\<exists>f. creator (vars ?hb ! 1) = Some f \<and> kind (funs ?hb ! f) = BroadcastTo [3, 2] \<and>
             inputs (funs ?hb ! f) = Some [0] \<and>
             backward_rule f [PVar 2] ?gb = bnd (sum_to (PVar 2) [2]) (\<lambda>dx. ret [PVar dx]) ?gb \<and>
             (\<exists>dx g'. backward_rule f [PVar 2] ?gb = Inr ([PVar dx], g') \<and>
                data (vars g' ! dx) = Some \<lparr>shape = [2], elems = [3, 3]\<rparr>)"
    apply (rule exI[of _ f])
    apply (intro conjI f e2)
    apply (rule exI[of _ 3], rule exI[of _ ?gb'])
    apply (simp only: e2 rb)
    apply simp
    done
  from t [of "[1]", THEN conjunct2, THEN conjunct2, rule_format, of 1 ?hs] s eb
  obtain f2 where f2: "creator (vars ?hs ! 1) = Some f2" "kind (funs ?hs ! f2) = SumTo [1]"
      "inputs (funs ?hs ! f2) = Some [0]" and
    r2: "\<forall>g dy. funs g ! f2 = funs ?hs ! f2 \<longrightarrow>
          backward_rule f2 [dy] g = bnd (broadcast_to dy (shape ?a)) (\<lambda>dx. ret [PVar dx]) g"
    by auto
  from f2(1) have f20: "f2 = 0" by simp
  from r2 [rule_format, of ?gs "PVar 2"] have
    e3: "backward_rule f2 [PVar 2] ?gs =
           bnd (broadcast_to (PVar 2) [2]) (\<lambda>dx. ret [PVar dx]) ?gs"
    by (simp add: f20)
  have 3: "\<exists>f. creator (vars ?hs ! 1) = Some f \<and> kind (funs ?hs ! f) = SumTo [1] \<and>
             inputs (funs ?hs ! f) = Some [0] \<and>
             backward_rule f [PVar 2] ?gs =
               bnd (broadcast_to (PVar 2) [2]) (\<lambda>dx. ret [PVar dx]) ?gs \<and>
             (\<exists>dx g'. backward_rule f [PVar 2] ?gs = Inr ([PVar dx], g') \<and>
                data (vars g' ! dx) = Some \<lparr>shape = [2], elems = [1, 1]\<rparr>)"
    apply (rule exI[of _ f2])
    apply (intro conjI f2 e3)
    apply (rule exI[of _ 3], rule exI[of _ ?gs'])
    apply (simp only: e3 rs)
    apply simp
    done
  have gb: "grad (vars ?gb ! 1) = PVar 2" "grad (vars ?gs ! 1) = PVar 2" by simp_all
  show ?thesis
    apply (intro conjI)
       apply (rule 1 [THEN conjunct1])
      apply (rule 1 [THEN conjunct2])
     apply (simp only: b sum.case prod.case)
     apply (simp only: sb sum.case prod.case)
     apply (simp only: gb)
     apply (intro conjI refl)
      apply simp
     apply (rule 2)
    apply (simp only: s sum.case prod.case)
    apply (simp only: ss sum.case prod.case)
    apply (simp only: gb)
    apply (intro conjI refl)
     apply simp
    apply (rule 3)
    done
qed

end
